theory Spec2Isabelle
  imports Main "HOL-Library.Word"
begin

section \<open>The keyboard control service of angular-cesium\<close>

text \<open>
  A shallow embedding of \<^verbatim>\<open>keyboard-control.service.ts\<close>. The class
  \<^verbatim>\<open>KeyboardControlService\<close> becomes a record that is passed through every method; a
  method that can throw returns a sum whose left injection is the exception, together with
  the service as it was at the moment of the throw (JavaScript does not roll back).

  The callbacks of a definition (\<^verbatim>\<open>action\<close>, \<^verbatim>\<open>validation\<close>, \<^verbatim>\<open>params\<close>,
  \<^verbatim>\<open>done\<close>) are functions of the injected \<^verbatim>\<open>cesiumService\<close>, whose state is the type
  parameter \<open>'w\<close>: they may change it, return a value or throw. They do not call back into the
  keyboard control service. Every invocation of a callback is appended to the field
  \<open>calls\<close>, which is what "invoked" means below. The key mapping function is a function
  of the event alone.

  \<^verbatim>\<open>init\<close>, which binds the handlers to the service and focuses the canvas on a
  click, changes nothing that is modelled here.
\<close>

subsection \<open>JavaScript values\<close>

text \<open>A JavaScript string is a sequence of UTF-16 code units.\<close>

type_synonym js_string = "16 word list"

datatype jsval =
    JUndefined
  | JNull
  | JBool bool
  | JNum int
  | JStr js_string
  | JObj "(js_string \<times> jsval) list"

text \<open>\<^verbatim>\<open>!v\<close> is the negation of \<open>truthy v\<close>.\<close>

fun truthy :: "jsval \<Rightarrow> bool" where
  "truthy JUndefined = False"
| "truthy JNull = False"
| "truthy (JBool b) = b"
| "truthy (JNum n) = (n \<noteq> 0)"
| "truthy (JStr s) = (s \<noteq> [])"
| "truthy (JObj ps) = True"

datatype js_error = TypeError | Thrown jsval

subsection \<open>Objects used as dictionaries\<close>

text \<open>
  An object used as a dictionary is the list of its own properties in creation order.
  Only own properties are modelled: a key that names a member of \<^verbatim>\<open>Object.prototype\<close>
  (such as \<^verbatim>\<open>toString\<close>) is outside the model.
\<close>

type_synonym 'v obj = "(js_string \<times> 'v) list"

text \<open>\<^verbatim>\<open>o[k]\<close>, with \<open>None\<close> for \<^verbatim>\<open>undefined\<close>.\<close>

fun obj_get :: "'v obj \<Rightarrow> js_string \<Rightarrow> 'v option" where
  "obj_get [] k = None"
| "obj_get ((k', v) # ps) k = (if k' = k then Some v else obj_get ps k)"

text \<open>\<^verbatim>\<open>o[k] = v\<close>: an existing property keeps its place, a new one is created last.\<close>

fun obj_set :: "'v obj \<Rightarrow> js_string \<Rightarrow> 'v \<Rightarrow> 'v obj" where
  "obj_set [] k v = [(k, v)]"
| "obj_set ((k', v') # ps) k v = (if k' = k then (k, v) # ps else (k', v') # obj_set ps k v)"

text \<open>
  \<^verbatim>\<open>Object.keys(o)\<close> lists the array indices (canonical decimal numerals below
  \<open>2^32 - 1\<close>) in ascending numeric order, then every other key in creation order.
\<close>

definition is_digit :: "16 word \<Rightarrow> bool" where
  "is_digit c = (48 \<le> unat c \<and> unat c \<le> 57)"

definition digits_value :: "js_string \<Rightarrow> nat" where
  "digits_value s = foldl (\<lambda>n c. 10 * n + (unat c - 48)) 0 s"

definition is_array_index :: "js_string \<Rightarrow> bool" where
  "is_array_index s =
     (s \<noteq> [] \<and> list_all is_digit s \<and> (length s = 1 \<or> hd s \<noteq> 48)
      \<and> digits_value s < 2 ^ 32 - 1)"

definition obj_keys :: "'v obj \<Rightarrow> js_string list" where
  "obj_keys ps =
     sort_key digits_value (filter is_array_index (map fst ps))
     @ filter (\<lambda>k. \<not> is_array_index k) (map fst ps)"

subsection \<open>The data model\<close>

record KeyboardEvent =
  keyCode :: nat
  timeStamp :: nat

text \<open>
  The callback types of the source. The event argument is optional because
  \<^verbatim>\<open>executeAction\<close> passes on the \<^verbatim>\<open>keyboardEvent\<close> field of an active definition, which
  can be \<^verbatim>\<open>null\<close>.
\<close>

type_synonym 'w KeyboardControlActionFn =
  "'w \<Rightarrow> jsval \<Rightarrow> KeyboardEvent option \<Rightarrow> (js_error + jsval) \<times> 'w"

type_synonym 'w KeyboardControlValidationFn =
  "'w \<Rightarrow> jsval \<Rightarrow> KeyboardEvent option \<Rightarrow> (js_error + jsval) \<times> 'w"

type_synonym 'w KeyboardControlDoneFn =
  "'w \<Rightarrow> KeyboardEvent option \<Rightarrow> (js_error + jsval) \<times> 'w"

type_synonym 'w ParamsFn =
  "'w \<Rightarrow> KeyboardEvent option \<Rightarrow> (js_error + jsval) \<times> 'w"

text \<open>\<^verbatim>\<open>action: KeyboardAction | KeyboardControlActionFn\<close>: a number or a function.\<close>

datatype 'w Action =
    ActionId nat
  | ActionFn "'w KeyboardControlActionFn"

text \<open>\<^verbatim>\<open>params\<close>: an absent field is \<open>ParamsValue JUndefined\<close>.\<close>

datatype 'w ParamsDef =
    ParamsValue jsval
  | ParamsFn "'w ParamsFn"

text \<open>
  \<^verbatim>\<open>KeyboardControlParams\<close>. The field \<^verbatim>\<open>done\<close> is called \<open>doneFn\<close> here.
\<close>

record 'w KeyboardControlParams =
  action :: "'w Action"
  validation :: "'w KeyboardControlValidationFn option"
  params :: "'w ParamsDef"
  doneFn :: "'w KeyboardControlDoneFn option"

type_synonym 'w KeyboardControlDefinition = "'w KeyboardControlParams obj"

datatype KeyEventState = IGNORED | NOT_PRESSED | PRESSED

text \<open>
  \<^verbatim>\<open>ActiveDefinition\<close>. Its field \<^verbatim>\<open>action\<close> is called \<open>activeAction\<close> here, since
  \<open>action\<close> is the field of a definition.
\<close>

record 'w ActiveDefinition =
  keyboardEvent :: "KeyboardEvent option"
  state :: KeyEventState
  activeAction :: "'w KeyboardControlParams option"

text \<open>The invocations of callbacks, in the order in which they happen.\<close>

datatype call =
    ParamsCall "KeyboardEvent option"
  | ValidationCall js_string jsval "KeyboardEvent option"
  | PredefinedCall nat jsval "KeyboardEvent option"
  | ActionCall js_string jsval "KeyboardEvent option"
  | DoneCall js_string "KeyboardEvent option"

text \<open>
  The service: its three private fields, the injected \<^verbatim>\<open>cesiumService\<close>, the listeners it
  has on the document (a DOM event target holds a listener at most once) and on the clock's
  \<^verbatim>\<open>onTick\<close> event (a list, counted), and the calls made so far.
\<close>

record 'w KeyboardControlService =
  currentDefinitions :: "'w KeyboardControlDefinition option"
  activeDefinitions :: "'w ActiveDefinition obj"
  keyMappingFn :: "KeyboardEvent \<Rightarrow> js_string"
  cesiumService :: 'w
  keydownListener :: bool
  keyupListener :: bool
  tickListeners :: nat
  calls :: "call list"

text \<open>
  \<^verbatim>\<open>PREDEFINED_KEYBOARD_ACTIONS\<close> is the table of another module
  (\<^verbatim>\<open>predefined-actions\<close>); it is a parameter \<open>tbl\<close> of the functions that read it.
\<close>

type_synonym 'w PredefinedActions = "nat \<Rightarrow> 'w KeyboardControlActionFn option"

subsection \<open>The methods\<close>

text \<open>\<^verbatim>\<open>String.fromCharCode\<close> takes its argument modulo \<open>2^16\<close>.\<close>

definition defaultKeyMappingFn :: "KeyboardEvent \<Rightarrow> js_string" where
  "defaultKeyMappingFn keyEvent = [word_of_nat (keyCode keyEvent)]"

text \<open>The service as its field initialisers leave it.\<close>

definition new_service :: "'w \<Rightarrow> 'w KeyboardControlService" where
  "new_service w =
     \<lparr> currentDefinitions = None, activeDefinitions = [],
       keyMappingFn = defaultKeyMappingFn, cesiumService = w,
       keydownListener = False, keyupListener = False, tickListeners = 0,
       calls = [] \<rparr>"

text \<open>
  Both branches of \<^verbatim>\<open>registerEvents\<close> run the same registration; the flag only chooses
  the zone it runs in.
\<close>

definition registerEvents ::
  "bool \<Rightarrow> 'w KeyboardControlService \<Rightarrow> 'w KeyboardControlService" where
  "registerEvents outsideOfAngularZone s =
     s\<lparr> keydownListener := True, keyupListener := True,
        tickListeners := Suc (tickListeners s) \<rparr>"

definition unregisterEvents :: "'w KeyboardControlService \<Rightarrow> 'w KeyboardControlService" where
  "unregisterEvents s =
     s\<lparr> keydownListener := False, keyupListener := False,
        tickListeners := tickListeners s - 1 \<rparr>"

definition removeKeyboardControls ::
  "'w KeyboardControlService \<Rightarrow> 'w KeyboardControlService" where
  "removeKeyboardControls s = (unregisterEvents s)\<lparr> currentDefinitions := None \<rparr>"

text \<open>The object literal that \<^verbatim>\<open>setKeyboardControls\<close> stores for every key.\<close>

definition not_pressed :: "'w ActiveDefinition" where
  "not_pressed = \<lparr> keyboardEvent = None, state = NOT_PRESSED, activeAction = None \<rparr>"

text \<open>
  \<^verbatim>\<open>setKeyboardControls\<close>. The first argument is \<open>None\<close> for a falsy
  \<^verbatim>\<open>definitions\<close> (\<^verbatim>\<open>null\<close> or \<^verbatim>\<open>undefined\<close>); the second is \<open>None\<close> when no
  mapping function is given.
\<close>

definition setKeyboardControls ::
  "'w KeyboardControlDefinition option \<Rightarrow> (KeyboardEvent \<Rightarrow> js_string) option \<Rightarrow> bool
   \<Rightarrow> 'w KeyboardControlService \<Rightarrow> 'w KeyboardControlService" where
  "setKeyboardControls definitions keyMapping outsideOfAngularZone s =
     (case definitions of
        None \<Rightarrow> removeKeyboardControls s
      | Some defs \<Rightarrow>
          let s1 = (if currentDefinitions s = None
                    then registerEvents outsideOfAngularZone s else s);
              s2 = s1\<lparr> currentDefinitions := Some defs,
                       keyMappingFn := (case keyMapping of
                                          None \<Rightarrow> defaultKeyMappingFn
                                        | Some f \<Rightarrow> f) \<rparr>
          in s2\<lparr> activeDefinitions :=
                   foldl (\<lambda>a k. obj_set a k not_pressed) (activeDefinitions s2)
                     (obj_keys defs) \<rparr>)"

text \<open>
  \<^verbatim>\<open>getAction\<close>: reading a property of \<^verbatim>\<open>null\<close> throws a \<^verbatim>\<open>TypeError\<close>.
\<close>

definition getAction ::
  "js_string \<Rightarrow> 'w KeyboardControlService \<Rightarrow> js_error + 'w KeyboardControlParams option" where
  "getAction char s =
     (case currentDefinitions s of
        None \<Rightarrow> Inl TypeError
      | Some defs \<Rightarrow> Inr (obj_get defs char))"

definition getParams ::
  "'w ParamsDef \<Rightarrow> KeyboardEvent option \<Rightarrow> 'w KeyboardControlService
   \<Rightarrow> (js_error + jsval) \<times> 'w KeyboardControlService" where
  "getParams paramsDef ev s =
     (case paramsDef of
        ParamsValue v \<Rightarrow> if \<not> truthy v then (Inr (JObj []), s) else (Inr v, s)
      | ParamsFn f \<Rightarrow>
          (case f (cesiumService s) ev of
             (r, w) \<Rightarrow> (r, s\<lparr> cesiumService := w, calls := calls s @ [ParamsCall ev] \<rparr>)))"

definition handleKeydown ::
  "KeyboardEvent \<Rightarrow> 'w KeyboardControlService
   \<Rightarrow> (js_error + unit) \<times> 'w KeyboardControlService" where
  "handleKeydown e s =
     (let char = keyMappingFn s e in
      case getAction char s of
        Inl x \<Rightarrow> (Inl x, s)
      | Inr None \<Rightarrow> (Inr (), s)
      | Inr (Some act) \<Rightarrow>
          (case obj_get (activeDefinitions s) char of
             None \<Rightarrow> (Inl TypeError, s)
           | Some actionState \<Rightarrow>
               if state actionState \<noteq> IGNORED then
                 (case getParams (params act) (Some e) s of
                    (Inl x, s1) \<Rightarrow> (Inl x, s1)
                  | (Inr ps, s1) \<Rightarrow>
                      (case (case validation act of
                               None \<Rightarrow> (Inr (JBool True), s1)
                             | Some v \<Rightarrow>
                                 (case v (cesiumService s1) ps (Some e) of
                                    (r, w) \<Rightarrow>
                                      (r, s1\<lparr> cesiumService := w,
                                              calls := calls s1
                                                @ [ValidationCall char ps (Some e)] \<rparr>))) of
                         (Inl x, s2) \<Rightarrow> (Inl x, s2)
                       | (Inr execute, s2) \<Rightarrow>
                           if execute = JBool True then
                             (Inr (), s2\<lparr> activeDefinitions :=
                                obj_set (activeDefinitions s2) char
                                  \<lparr> keyboardEvent = Some e, state = PRESSED,
                                    activeAction = Some act \<rparr> \<rparr>)
                           else (Inr (), s2)))
               else (Inr (), s)))"

definition handleKeyup ::
  "KeyboardEvent \<Rightarrow> 'w KeyboardControlService
   \<Rightarrow> (js_error + unit) \<times> 'w KeyboardControlService" where
  "handleKeyup e s =
     (let char = keyMappingFn s e in
      case getAction char s of
        Inl x \<Rightarrow> (Inl x, s)
      | Inr None \<Rightarrow> (Inr (), s)
      | Inr (Some act) \<Rightarrow>
          (let s1 = s\<lparr> activeDefinitions :=
                       obj_set (activeDefinitions s) char
                         \<lparr> keyboardEvent = Some e, state = NOT_PRESSED,
                           activeAction = None \<rparr> \<rparr>
           in case doneFn act of
                None \<Rightarrow> (Inr (), s1)
              | Some d \<Rightarrow>
                  (case d (cesiumService s1) (Some e) of
                     (r, w) \<Rightarrow>
                       (map_sum id (\<lambda>_. ()) r,
                        s1\<lparr> cesiumService := w,
                            calls := calls s1 @ [DoneCall char (Some e)] \<rparr>))))"

text \<open>The object literal that a cancelled key gets.\<close>

definition ignored :: "'w ActiveDefinition" where
  "ignored = \<lparr> keyboardEvent = None, state = IGNORED, activeAction = None \<rparr>"

definition executeAction ::
  "'w PredefinedActions \<Rightarrow> 'w KeyboardControlParams \<Rightarrow> js_string \<Rightarrow> KeyboardEvent option
   \<Rightarrow> 'w KeyboardControlService \<Rightarrow> (js_error + unit) \<times> 'w KeyboardControlService" where
  "executeAction tbl execution k ev s =
     (if currentDefinitions s = None then (Inr (), s)
      else
        case getParams (params execution) ev s of
          (Inl x, s1) \<Rightarrow> (Inl x, s1)
        | (Inr ps, s1) \<Rightarrow>
            (case action execution of
               ActionId n \<Rightarrow>
                 (case tbl n of
                    None \<Rightarrow> (Inr (), s1)
                  | Some predefinedAction \<Rightarrow>
                      (case predefinedAction (cesiumService s1) ps ev of
                         (r, w) \<Rightarrow>
                           (map_sum id (\<lambda>_. ()) r,
                            s1\<lparr> cesiumService := w,
                                calls := calls s1 @ [PredefinedCall n ps ev] \<rparr>)))
             | ActionFn f \<Rightarrow>
                 (case f (cesiumService s1) ps ev of
                    (r, w) \<Rightarrow>
                      (let s2 = s1\<lparr> cesiumService := w,
                                    calls := calls s1 @ [ActionCall k ps ev] \<rparr>
                       in case r of
                            Inl x \<Rightarrow> (Inl x, s2)
                          | Inr shouldCancelEvent \<Rightarrow>
                              if shouldCancelEvent = JBool False then
                                (Inr (), s2\<lparr> activeDefinitions :=
                                   obj_set (activeDefinitions s2) k ignored \<rparr>)
                              else (Inr (), s2)))))"

text \<open>
  The body of the \<^verbatim>\<open>forEach\<close> of \<^verbatim>\<open>handleTick\<close> for one key. Reading a field of
  \<^verbatim>\<open>undefined\<close> throws.
\<close>

definition handleTick_key ::
  "'w PredefinedActions \<Rightarrow> js_string \<Rightarrow> 'w KeyboardControlService
   \<Rightarrow> (js_error + unit) \<times> 'w KeyboardControlService" where
  "handleTick_key tbl k s =
     (case obj_get (activeDefinitions s) k of
        None \<Rightarrow> (Inl TypeError, s)
      | Some actionState \<Rightarrow>
          (case activeAction actionState of
             None \<Rightarrow> (Inr (), s)
           | Some act \<Rightarrow>
               if state actionState = PRESSED
               then executeAction tbl act k (keyboardEvent actionState) s
               else (Inr (), s)))"

text \<open>The \<^verbatim>\<open>forEach\<close>: an exception thrown by the body ends the iteration.\<close>

fun handleTick_forEach ::
  "'w PredefinedActions \<Rightarrow> js_string list \<Rightarrow> 'w KeyboardControlService
   \<Rightarrow> (js_error + unit) \<times> 'w KeyboardControlService" where
  "handleTick_forEach tbl [] s = (Inr (), s)"
| "handleTick_forEach tbl (k # ks) s =
     (case handleTick_key tbl k s of
        (Inl x, s1) \<Rightarrow> (Inl x, s1)
      | (Inr u, s1) \<Rightarrow> handleTick_forEach tbl ks s1)"

definition handleTick ::
  "'w PredefinedActions \<Rightarrow> 'w KeyboardControlService
   \<Rightarrow> (js_error + unit) \<times> 'w KeyboardControlService" where
  "handleTick tbl s = handleTick_forEach tbl (obj_keys (activeDefinitions s)) s"

subsection \<open>The host: events delivered one after the other\<close>

text \<open>
  What the application and the event sources can do with the service. An exception thrown
  by a handler goes to the host, which delivers the next event to the service as the handler
  left it.
\<close>

datatype 'w input =
    SetKeyboardControls "'w KeyboardControlDefinition option"
      "(KeyboardEvent \<Rightarrow> js_string) option" bool
  | RemoveKeyboardControls
  | Keydown KeyboardEvent
  | Keyup KeyboardEvent
  | Tick

fun deliver ::
  "'w PredefinedActions \<Rightarrow> 'w input \<Rightarrow> 'w KeyboardControlService
   \<Rightarrow> 'w KeyboardControlService" where
  "deliver tbl (SetKeyboardControls definitions keyMapping z) s =
     setKeyboardControls definitions keyMapping z s"
| "deliver tbl RemoveKeyboardControls s = removeKeyboardControls s"
| "deliver tbl (Keydown e) s = snd (handleKeydown e s)"
| "deliver tbl (Keyup e) s = snd (handleKeyup e s)"
| "deliver tbl Tick s = snd (handleTick tbl s)"

fun run ::
  "'w PredefinedActions \<Rightarrow> 'w input list \<Rightarrow> 'w KeyboardControlService
   \<Rightarrow> 'w KeyboardControlService" where
  "run tbl [] s = s"
| "run tbl (i # is) s = run tbl is (deliver tbl i s)"

text \<open>
  The same through the listeners: an event of the document reaches a handler only while the
  handler is a listener, and the clock raises a tick to each of its listeners in turn, an
  exception ending the raise (\<open>deliver\<close> calls the handler in any case). The result
  says whether the host saw an exception.
\<close>

fun raise_tick ::
  "'w PredefinedActions \<Rightarrow> nat \<Rightarrow> 'w KeyboardControlService
   \<Rightarrow> (js_error + unit) \<times> 'w KeyboardControlService" where
  "raise_tick tbl 0 s = (Inr (), s)"
| "raise_tick tbl (Suc n) s =
     (case handleTick tbl s of
        (Inl x, s1) \<Rightarrow> (Inl x, s1)
      | (Inr u, s1) \<Rightarrow> raise_tick tbl n s1)"

fun host_deliver ::
  "'w PredefinedActions \<Rightarrow> 'w input \<Rightarrow> 'w KeyboardControlService
   \<Rightarrow> (js_error + unit) \<times> 'w KeyboardControlService" where
  "host_deliver tbl (SetKeyboardControls definitions keyMapping z) s =
     (Inr (), setKeyboardControls definitions keyMapping z s)"
| "host_deliver tbl RemoveKeyboardControls s = (Inr (), removeKeyboardControls s)"
| "host_deliver tbl (Keydown e) s =
     (if keydownListener s then handleKeydown e s else (Inr (), s))"
| "host_deliver tbl (Keyup e) s =
     (if keyupListener s then handleKeyup e s else (Inr (), s))"
| "host_deliver tbl Tick s = raise_tick tbl (tickListeners s) s"

fun host_run ::
  "'w PredefinedActions \<Rightarrow> 'w input list \<Rightarrow> 'w KeyboardControlService
   \<Rightarrow> 'w KeyboardControlService" where
  "host_run tbl [] s = s"
| "host_run tbl (i # is) s = host_run tbl is (snd (host_deliver tbl i s))"

text \<open>The inputs that come from the event sources.\<close>

fun is_event :: "'w input \<Rightarrow> bool" where
  "is_event (Keydown e) = True"
| "is_event (Keyup e) = True"
| "is_event Tick = True"
| "is_event RemoveKeyboardControls = False"
| "is_event (SetKeyboardControls definitions keyMapping z) = False"

subsection \<open>Observations\<close>

text \<open>The state of a key, when it has an active definition.\<close>

definition key_state :: "'w KeyboardControlService \<Rightarrow> js_string \<Rightarrow> KeyEventState option" where
  "key_state s k = map_option state (obj_get (activeDefinitions s) k)"

text \<open>The invocations of the action callback for the key \<open>k\<close> among some calls.\<close>

fun is_action_call :: "js_string \<Rightarrow> call \<Rightarrow> bool" where
  "is_action_call k (ActionCall k' ps ev) = (k' = k)"
| "is_action_call k c = False"

definition action_calls :: "js_string \<Rightarrow> call list \<Rightarrow> call list" where
  "action_calls k cs = filter (is_action_call k) cs"

text \<open>
  An input that is neither a change of the definitions nor a key-up of the key \<open>k\<close> under
  the mapping function \<open>km\<close>.
\<close>

fun keeps_held :: "(KeyboardEvent \<Rightarrow> js_string) \<Rightarrow> js_string \<Rightarrow> 'w input \<Rightarrow> bool" where
  "keeps_held km k (Keydown e) = True"
| "keeps_held km k Tick = True"
| "keeps_held km k (Keyup e) = (km e \<noteq> k)"
| "keeps_held km k RemoveKeyboardControls = False"
| "keeps_held km k (SetKeyboardControls definitions keyMapping z) = False"

text \<open>
  What every active definition satisfies: a pressed key holds its definition and its
  key-down event, a cancelled key holds neither, a key that is not pressed holds no definition.
\<close>

definition snapshot_ok :: "'w ActiveDefinition \<Rightarrow> bool" where
  "snapshot_ok a =
     (case state a of
        PRESSED \<Rightarrow> activeAction a \<noteq> None \<and> keyboardEvent a \<noteq> None
      | IGNORED \<Rightarrow> activeAction a = None \<and> keyboardEvent a = None
      | NOT_PRESSED \<Rightarrow> activeAction a = None)"

text \<open>
  The handlers are listeners exactly while definitions are installed, and the clock holds
  the tick handler at most once.
\<close>

definition attached :: "'w KeyboardControlService \<Rightarrow> bool" where
  "attached s =
     (keydownListener s = (currentDefinitions s \<noteq> None)
      \<and> keyupListener s = (currentDefinitions s \<noteq> None)
      \<and> tickListeners s = (if currentDefinitions s = None then 0 else 1))"

subsection \<open>Example definitions\<close>

definition key_A :: js_string where "key_A = [65]"
definition key_B :: js_string where "key_B = [66]"
definition key_S :: js_string where "key_S = [83]"

definition event_at :: "nat \<Rightarrow> nat \<Rightarrow> KeyboardEvent" where
  "event_at c t = \<lparr> keyCode = c, timeStamp = t \<rparr>"

text \<open>In the examples the state of \<^verbatim>\<open>cesiumService\<close> counts the executions of actions.\<close>

definition cancelling_action :: "nat KeyboardControlActionFn" where
  "cancelling_action w ps e = (Inr (JBool False), Suc w)"

definition plain_action :: "nat KeyboardControlActionFn" where
  "plain_action w ps e = (Inr JUndefined, Suc w)"

definition throwing_action :: "nat KeyboardControlActionFn" where
  "throwing_action w ps e = (Inl (Thrown (JStr [])), w)"

definition done_callback :: "nat KeyboardControlDoneFn" where
  "done_callback w e = (Inr JUndefined, w)"

definition counting_params :: "nat ParamsFn" where
  "counting_params w e = (Inr (JNum (int w)), w)"

definition no_predefined :: "nat PredefinedActions" where
  "no_predefined n = None"

definition one_predefined :: "nat PredefinedActions" where
  "one_predefined n = (if n = 42 then Some cancelling_action else None)"

text \<open>\<^verbatim>\<open>{S: {action: () => false, done: onDone}}\<close>\<close>

definition binding_S :: "nat KeyboardControlParams" where
  "binding_S = \<lparr> action = ActionFn cancelling_action, validation = None,
                 params = ParamsValue JUndefined, doneFn = Some done_callback \<rparr>"

definition defs_S :: "nat KeyboardControlDefinition" where
  "defs_S = [(key_S, binding_S)]"

text \<open>\<^verbatim>\<open>{A: {action: () => { throw '' }}, B: {action: () => {}}}\<close>\<close>

definition binding_A :: "nat KeyboardControlParams" where
  "binding_A = \<lparr> action = ActionFn throwing_action, validation = None,
                 params = ParamsValue JUndefined, doneFn = None \<rparr>"

definition binding_B :: "nat KeyboardControlParams" where
  "binding_B = \<lparr> action = ActionFn plain_action, validation = None,
                 params = ParamsFn counting_params, doneFn = None \<rparr>"

definition defs_AB :: "nat KeyboardControlDefinition" where
  "defs_AB = [(key_A, binding_A), (key_B, binding_B)]"

text \<open>A definition with a predefined action, under a key of the examples.\<close>

definition binding_W :: "nat \<Rightarrow> nat KeyboardControlParams" where
  "binding_W n = \<lparr> action = ActionId n, validation = None,
                   params = ParamsValue JUndefined, doneFn = None \<rparr>"

text \<open>Install \<open>defs_S\<close>, press S, one tick (the action cancels), release S.\<close>

definition s_installed :: "nat KeyboardControlService" where
  "s_installed = setKeyboardControls (Some defs_S) None False (new_service 0)"

definition s_down :: "nat KeyboardControlService" where
  "s_down = snd (handleKeydown (event_at 83 1) s_installed)"

definition s_tick :: "nat KeyboardControlService" where
  "s_tick = snd (handleTick no_predefined s_down)"

definition s_up :: "nat KeyboardControlService" where
  "s_up = snd (handleKeyup (event_at 83 2) s_tick)"

text \<open>Install \<open>defs_AB\<close>, press A, press B; then a tick.\<close>

definition ab_installed :: "nat KeyboardControlService" where
  "ab_installed = setKeyboardControls (Some defs_AB) None False (new_service 0)"

definition ab_down :: "nat KeyboardControlService" where
  "ab_down = snd (handleKeydown (event_at 66 2) (snd (handleKeydown (event_at 65 1) ab_installed)))"

definition ab_tick :: "(js_error + unit) \<times> nat KeyboardControlService" where
  "ab_tick = handleTick no_predefined ab_down"

text \<open>Install definitions for S and B, press both, one tick.\<close>

definition defs_SB :: "nat KeyboardControlDefinition" where
  "defs_SB = [(key_S, binding_S), (key_B, binding_B)]"

definition sb_installed :: "nat KeyboardControlService" where
  "sb_installed = setKeyboardControls (Some defs_SB) None False (new_service 0)"

definition sb_down :: "nat KeyboardControlService" where
  "sb_down = snd (handleKeydown (event_at 66 2) (snd (handleKeydown (event_at 83 1) sb_installed)))"

definition sb_tick :: "nat KeyboardControlService" where
  "sb_tick = snd (handleTick no_predefined sb_down)"

text \<open>The service between the two executions of that tick.\<close>

definition sb_mid :: "nat KeyboardControlService" where
  "sb_mid = snd (handleTick_key no_predefined key_S sb_down)"

text \<open>Install definitions for S and B, press B, install \<open>defs_S\<close>.\<close>

definition b_stale :: "nat KeyboardControlService" where
  "b_stale =
     setKeyboardControls (Some defs_S) None False
       (snd (handleKeydown (event_at 66 2) sb_installed))"

text \<open>A second tick after \<open>sb_tick\<close>.\<close>

definition sb_tick2 :: "nat KeyboardControlService" where
  "sb_tick2 = snd (handleTick no_predefined sb_tick)"

section \<open>Properties\<close>

subsection \<open>Dictionaries\<close>

lemma obj_get_set: "obj_get (obj_set t k v) k' = (if k' = k then Some v else obj_get t k')"
  by (induction t) auto

lemma obj_get_None_iff: "obj_get t k = None \<longleftrightarrow> k \<notin> set (map fst t)"
  by (induction t k rule: obj_get.induct) simp_all

lemma fst_obj_set: "set (map fst (obj_set t k v)) = insert k (set (map fst t))"
  by (induction t k v rule: obj_set.induct) (simp_all add: insert_commute)

lemma map_fst_obj_set_present: "obj_get t k = Some a \<Longrightarrow> map fst (obj_set t k v) = map fst t"
  by (induction t) (auto split: if_splits)

lemma distinct_obj_set: "distinct (map fst t) \<Longrightarrow> distinct (map fst (obj_set t k v))"
proof (induction t k v rule: obj_set.induct)
  case (1 k v)
  then show ?case by simp
next
  case (2 k' v' ps k v)
  have "set (map fst (obj_set ps k v)) = insert k (set (map fst ps))"
    by (rule fst_obj_set)
  with 2 show ?case by auto
qed

lemma set_obj_keys: "set (obj_keys t) = set (map fst t)"
  by (auto simp: obj_keys_def)

lemma distinct_obj_keys: "distinct (map fst t) \<Longrightarrow> distinct (obj_keys t)"
  by (auto simp: obj_keys_def)

lemma obj_keys_cong: "map fst t = map fst t' \<Longrightarrow> obj_keys t = obj_keys t'"
  by (simp add: obj_keys_def)

lemma obj_get_foldl_set:
  "obj_get (foldl (\<lambda>a k. obj_set a k v) t ks) k' =
     (if k' \<in> set ks then Some v else obj_get t k')"
  by (induction ks arbitrary: t) (auto simp: obj_get_set)

lemma distinct_foldl_set:
  "distinct (map fst t) \<Longrightarrow> distinct (map fst (foldl (\<lambda>a k. obj_set a k v) t ks))"
  by (induction ks arbitrary: t) (auto simp: distinct_obj_set)

lemma list_all_obj_set:
  "list_all P (map snd t) \<Longrightarrow> P v \<Longrightarrow> list_all P (map snd (obj_set t k v))"
  by (induction t) auto

lemma list_all_foldl_set:
  "list_all P (map snd t) \<Longrightarrow> P v \<Longrightarrow> list_all P (map snd (foldl (\<lambda>a k. obj_set a k v) t ks))"
  by (induction ks arbitrary: t) (auto simp: list_all_obj_set)

subsection \<open>What the methods leave alone\<close>

lemma getParams_frame:
  assumes "getParams pd e s = (r, s1)"
  shows "currentDefinitions s1 = currentDefinitions s"
    and "activeDefinitions s1 = activeDefinitions s"
    and "keyMappingFn s1 = keyMappingFn s"
    and "action_calls k (calls s1) = action_calls k (calls s)"
  using assms
  by (auto simp: getParams_def action_calls_def split: ParamsDef.splits if_splits prod.splits)

lemma getParams_snd:
  "currentDefinitions (snd (getParams pd e s)) = currentDefinitions s"
  "activeDefinitions (snd (getParams pd e s)) = activeDefinitions s"
  "keyMappingFn (snd (getParams pd e s)) = keyMappingFn s"
  "action_calls k (calls (snd (getParams pd e s))) = action_calls k (calls s)"
  by (cases "getParams pd e s"; simp add: getParams_frame)+

lemma executeAction_frame:
  assumes "executeAction tbl b k e s = (r, s')"
  shows "currentDefinitions s' = currentDefinitions s"
    and "keyMappingFn s' = keyMappingFn s"
    and "k' \<noteq> k \<Longrightarrow> obj_get (activeDefinitions s') k' = obj_get (activeDefinitions s) k'"
    and "k' \<noteq> k \<Longrightarrow> action_calls k' (calls s') = action_calls k' (calls s)"
    and "activeDefinitions s' = activeDefinitions s
         \<or> activeDefinitions s' = obj_set (activeDefinitions s) k ignored"
    and "r = Inl x \<Longrightarrow> activeDefinitions s' = activeDefinitions s"
  using assms
  by (auto simp: executeAction_def action_calls_def obj_get_set Let_def
      dest: getParams_frame
      split: if_splits prod.splits sum.splits Action.splits option.splits)

lemma handleTick_key_frame:
  assumes "handleTick_key tbl k s = (r, s')"
  shows "currentDefinitions s' = currentDefinitions s"
    and "keyMappingFn s' = keyMappingFn s"
    and "k' \<noteq> k \<Longrightarrow> obj_get (activeDefinitions s') k' = obj_get (activeDefinitions s) k'"
    and "k' \<noteq> k \<Longrightarrow> action_calls k' (calls s') = action_calls k' (calls s)"
    and "activeDefinitions s' = activeDefinitions s
         \<or> activeDefinitions s' = obj_set (activeDefinitions s) k ignored"
    and "r = Inl x \<Longrightarrow> activeDefinitions s' = activeDefinitions s"
    and "map fst (activeDefinitions s') = map fst (activeDefinitions s)"
proof -
  show "currentDefinitions s' = currentDefinitions s"
    using assms
    by (auto simp: handleTick_key_def dest: executeAction_frame(1) split: option.splits if_splits)
  show "keyMappingFn s' = keyMappingFn s"
    using assms
    by (auto simp: handleTick_key_def dest: executeAction_frame(2) split: option.splits if_splits)
  show "k' \<noteq> k \<Longrightarrow> obj_get (activeDefinitions s') k' = obj_get (activeDefinitions s) k'"
    using assms
    by (auto simp: handleTick_key_def dest: executeAction_frame(3) split: option.splits if_splits)
  show "k' \<noteq> k \<Longrightarrow> action_calls k' (calls s') = action_calls k' (calls s)"
    using assms
    by (auto simp: handleTick_key_def dest: executeAction_frame(4) split: option.splits if_splits)
  show c: "activeDefinitions s' = activeDefinitions s
         \<or> activeDefinitions s' = obj_set (activeDefinitions s) k ignored"
    using assms
    by (auto simp: handleTick_key_def dest: executeAction_frame(5) split: option.splits if_splits)
  show "r = Inl x \<Longrightarrow> activeDefinitions s' = activeDefinitions s"
    using assms
    by (auto simp: handleTick_key_def dest: executeAction_frame(6) split: option.splits if_splits)
  show "map fst (activeDefinitions s') = map fst (activeDefinitions s)"
  proof (cases "obj_get (activeDefinitions s) k")
    case None
    with assms show ?thesis by (simp add: handleTick_key_def)
  next
    case (Some a)
    with c show ?thesis by (auto simp: map_fst_obj_set_present)
  qed
qed

lemma handleTick_key_idle:
  assumes "key_state s k \<noteq> Some PRESSED"
  shows "snd (handleTick_key tbl k s) = s"
  using assms
  by (auto simp: handleTick_key_def key_state_def split: option.splits)

lemma handleTick_key_stable:
  assumes "key_state s k \<noteq> Some PRESSED" and "handleTick_key tbl k' s = (r, s')"
  shows "obj_get (activeDefinitions s') k = obj_get (activeDefinitions s) k"
    and "action_calls k (calls s') = action_calls k (calls s)"
proof -
  have "obj_get (activeDefinitions s') k = obj_get (activeDefinitions s) k
        \<and> action_calls k (calls s') = action_calls k (calls s)"
  proof (cases "k' = k")
    case True
    with assms handleTick_key_idle [of s k tbl] show ?thesis by simp
  next
    case False
    with assms(2) show ?thesis
      by (simp add: handleTick_key_frame(3) handleTick_key_frame(4))
  qed
  then show "obj_get (activeDefinitions s') k = obj_get (activeDefinitions s) k"
    and "action_calls k (calls s') = action_calls k (calls s)"
    by simp_all
qed

lemma handleTick_forEach_append:
  "handleTick_forEach tbl (xs @ ys) s =
     (case handleTick_forEach tbl xs s of
        (Inl x, s1) \<Rightarrow> (Inl x, s1)
      | (Inr u, s1) \<Rightarrow> handleTick_forEach tbl ys s1)"
  by (induction xs arbitrary: s) (auto split: prod.splits sum.splits)

lemma handleTick_forEach_frame_all:
  assumes "handleTick_forEach tbl ks s = (r, s')"
  shows "currentDefinitions s' = currentDefinitions s
       \<and> keyMappingFn s' = keyMappingFn s
       \<and> map fst (activeDefinitions s') = map fst (activeDefinitions s)
       \<and> (k \<notin> set ks \<longrightarrow> obj_get (activeDefinitions s') k = obj_get (activeDefinitions s) k)
       \<and> (k \<notin> set ks \<longrightarrow> action_calls k (calls s') = action_calls k (calls s))"
  using assms
proof (induction ks arbitrary: s)
  case Nil
  then show ?case by simp
next
  case (Cons a ks)
  obtain r1 s1 where h: "handleTick_key tbl a s = (r1, s1)"
    by (cases "handleTick_key tbl a s")
  note fr = handleTick_key_frame [OF h]
  show ?case
  proof (cases r1)
    case (Inl x)
    with h Cons.prems have "s' = s1" by simp
    with fr show ?thesis by simp
  next
    case (Inr u)
    with h Cons.prems have "handleTick_forEach tbl ks s1 = (r, s')" by simp
    from Cons.IH [OF this] fr show ?thesis by simp
  qed
qed

lemma handleTick_forEach_frame:
  assumes "handleTick_forEach tbl ks s = (r, s')"
  shows "currentDefinitions s' = currentDefinitions s"
    and "keyMappingFn s' = keyMappingFn s"
    and "map fst (activeDefinitions s') = map fst (activeDefinitions s)"
    and "k \<notin> set ks \<Longrightarrow> obj_get (activeDefinitions s') k = obj_get (activeDefinitions s) k"
    and "k \<notin> set ks \<Longrightarrow> action_calls k (calls s') = action_calls k (calls s)"
  using handleTick_forEach_frame_all [OF assms, of k] by simp_all

lemma handleTick_forEach_stable:
  assumes "key_state s k \<noteq> Some PRESSED" and "handleTick_forEach tbl ks s = (r, s')"
  shows "obj_get (activeDefinitions s') k = obj_get (activeDefinitions s) k
         \<and> action_calls k (calls s') = action_calls k (calls s)"
  using assms
proof (induction ks arbitrary: s)
  case Nil
  then show ?case by simp
next
  case (Cons a ks)
  obtain r1 s1 where h: "handleTick_key tbl a s = (r1, s1)"
    by (cases "handleTick_key tbl a s")
  note st = handleTick_key_stable [OF Cons.prems(1) h]
  from st(1) Cons.prems(1) have idle: "key_state s1 k \<noteq> Some PRESSED"
    by (simp add: key_state_def)
  show ?case
  proof (cases r1)
    case (Inl x)
    with h Cons.prems(2) st show ?thesis by simp
  next
    case (Inr u)
    with h Cons.prems(2) have "handleTick_forEach tbl ks s1 = (r, s')" by simp
    from Cons.IH [OF idle this] st show ?thesis by simp
  qed
qed

lemma handleKeydown_frame:
  assumes "handleKeydown e s = (r, s')"
  shows "currentDefinitions s' = currentDefinitions s"
    and "keyMappingFn s' = keyMappingFn s"
    and "action_calls k (calls s') = action_calls k (calls s)"
    and "k \<noteq> keyMappingFn s e \<Longrightarrow>
           obj_get (activeDefinitions s') k = obj_get (activeDefinitions s) k"
    and "key_state s k = Some IGNORED \<Longrightarrow>
           obj_get (activeDefinitions s') k = obj_get (activeDefinitions s) k"
    and "activeDefinitions s' = activeDefinitions s
         \<or> (\<exists>b. activeDefinitions s' = obj_set (activeDefinitions s) (keyMappingFn s e)
                 \<lparr> keyboardEvent = Some e, state = PRESSED, activeAction = Some b \<rparr>)"
proof -
  show "currentDefinitions s' = currentDefinitions s"
    using assms
    by (auto simp: handleKeydown_def Let_def getAction_def split_beta getParams_snd
        split: option.splits if_splits sum.splits)
  show "keyMappingFn s' = keyMappingFn s"
    using assms
    by (auto simp: handleKeydown_def Let_def getAction_def split_beta getParams_snd
        split: option.splits if_splits sum.splits)
  show "action_calls k (calls s') = action_calls k (calls s)"
    using assms getParams_snd(4) [of k]
    by (auto simp: handleKeydown_def Let_def getAction_def split_beta action_calls_def
        split: option.splits if_splits sum.splits)
  show "k \<noteq> keyMappingFn s e \<Longrightarrow>
           obj_get (activeDefinitions s') k = obj_get (activeDefinitions s) k"
    using assms
    by (auto simp: handleKeydown_def Let_def getAction_def split_beta getParams_snd obj_get_set
        split: option.splits if_splits sum.splits)
  show "key_state s k = Some IGNORED \<Longrightarrow>
           obj_get (activeDefinitions s') k = obj_get (activeDefinitions s) k"
    using assms
    by (auto simp: handleKeydown_def Let_def getAction_def split_beta getParams_snd obj_get_set
          key_state_def
        split: option.splits if_splits sum.splits)
  show "activeDefinitions s' = activeDefinitions s
         \<or> (\<exists>b. activeDefinitions s' = obj_set (activeDefinitions s) (keyMappingFn s e)
                 \<lparr> keyboardEvent = Some e, state = PRESSED, activeAction = Some b \<rparr>)"
    using assms
    by (auto simp: handleKeydown_def Let_def getAction_def split_beta getParams_snd
        split: option.splits if_splits sum.splits)
qed

lemma handleKeyup_frame:
  assumes "handleKeyup e s = (r, s')"
  shows "currentDefinitions s' = currentDefinitions s"
    and "keyMappingFn s' = keyMappingFn s"
    and "action_calls k (calls s') = action_calls k (calls s)"
    and "k \<noteq> keyMappingFn s e \<Longrightarrow>
           obj_get (activeDefinitions s') k = obj_get (activeDefinitions s) k"
    and "activeDefinitions s' = activeDefinitions s
         \<or> activeDefinitions s' = obj_set (activeDefinitions s) (keyMappingFn s e)
                 \<lparr> keyboardEvent = Some e, state = NOT_PRESSED, activeAction = None \<rparr>"
  using assms
  by (auto simp: handleKeyup_def Let_def getAction_def obj_get_set action_calls_def
      split: option.splits if_splits prod.splits sum.splits)

text \<open>The calls only grow.\<close>

lemma getParams_calls: "\<exists>cs. calls (snd (getParams pd e s)) = calls s @ cs"
  by (auto simp: getParams_def split_beta split: ParamsDef.splits)

lemma executeAction_calls: "\<exists>cs. calls (snd (executeAction tbl b k e s)) = calls s @ cs"
proof -
  obtain cs where "calls (snd (getParams (params b) e s)) = calls s @ cs"
    using getParams_calls by blast
  then show ?thesis
    by (auto simp: executeAction_def Let_def split_beta
        split: sum.splits Action.splits option.splits)
qed

lemma handleTick_key_calls: "\<exists>cs. calls (snd (handleTick_key tbl k s)) = calls s @ cs"
  using executeAction_calls
  by (auto simp: handleTick_key_def split: option.splits)

lemma handleTick_forEach_calls:
  "\<exists>cs. calls (snd (handleTick_forEach tbl ks s)) = calls s @ cs"
proof (induction ks arbitrary: s)
  case Nil
  then show ?case by simp
next
  case (Cons k ks)
  obtain r1 s1 where h: "handleTick_key tbl k s = (r1, s1)"
    by (cases "handleTick_key tbl k s")
  obtain cs1 where c1: "calls s1 = calls s @ cs1"
    using handleTick_key_calls [of tbl k s] h by auto
  show ?case
  proof (cases r1)
    case (Inl x)
    with h c1 show ?thesis by simp
  next
    case (Inr u)
    obtain cs2 where "calls (snd (handleTick_forEach tbl ks s1)) = calls s1 @ cs2"
      using Cons.IH [of s1] by blast
    with h c1 Inr show ?thesis by simp
  qed
qed

text \<open>No handler touches the listeners.\<close>

lemma getParams_listeners:
  "keydownListener (snd (getParams pd e s)) = keydownListener s"
  "keyupListener (snd (getParams pd e s)) = keyupListener s"
  "tickListeners (snd (getParams pd e s)) = tickListeners s"
  by (auto simp: getParams_def split_beta split: ParamsDef.splits)

lemma handleKeydown_listeners:
  "keydownListener (snd (handleKeydown e s)) = keydownListener s
   \<and> keyupListener (snd (handleKeydown e s)) = keyupListener s
   \<and> tickListeners (snd (handleKeydown e s)) = tickListeners s"
  by (auto simp: handleKeydown_def Let_def getAction_def split_beta getParams_listeners
      split: option.splits sum.splits)

lemma handleKeyup_listeners:
  "keydownListener (snd (handleKeyup e s)) = keydownListener s
   \<and> keyupListener (snd (handleKeyup e s)) = keyupListener s
   \<and> tickListeners (snd (handleKeyup e s)) = tickListeners s"
  by (auto simp: handleKeyup_def Let_def getAction_def split_beta
      split: option.splits sum.splits)

lemma executeAction_listeners:
  "keydownListener (snd (executeAction tbl b k e s)) = keydownListener s
   \<and> keyupListener (snd (executeAction tbl b k e s)) = keyupListener s
   \<and> tickListeners (snd (executeAction tbl b k e s)) = tickListeners s"
  by (auto simp: executeAction_def Let_def split_beta getParams_listeners
      split: option.splits sum.splits Action.splits)

lemma handleTick_key_listeners:
  "keydownListener (snd (handleTick_key tbl k s)) = keydownListener s
   \<and> keyupListener (snd (handleTick_key tbl k s)) = keyupListener s
   \<and> tickListeners (snd (handleTick_key tbl k s)) = tickListeners s"
  by (simp add: handleTick_key_def executeAction_listeners split: option.splits)

lemma handleTick_forEach_listeners:
  "keydownListener (snd (handleTick_forEach tbl ks s)) = keydownListener s
   \<and> keyupListener (snd (handleTick_forEach tbl ks s)) = keyupListener s
   \<and> tickListeners (snd (handleTick_forEach tbl ks s)) = tickListeners s"
proof (induction ks arbitrary: s)
  case Nil
  then show ?case by simp
next
  case (Cons k ks)
  obtain r1 s1 where h: "handleTick_key tbl k s = (r1, s1)"
    by (cases "handleTick_key tbl k s")
  with handleTick_key_listeners [of tbl k s]
  have l: "keydownListener s1 = keydownListener s \<and> keyupListener s1 = keyupListener s
           \<and> tickListeners s1 = tickListeners s"
    by simp
  show ?case
  proof (cases r1)
    case (Inl x)
    with h l show ?thesis by simp
  next
    case (Inr u)
    with h l Cons.IH [of s1] show ?thesis by simp
  qed
qed

lemma raise_tick_frame:
  "keydownListener (snd (raise_tick tbl n s)) = keydownListener s
   \<and> keyupListener (snd (raise_tick tbl n s)) = keyupListener s
   \<and> tickListeners (snd (raise_tick tbl n s)) = tickListeners s
   \<and> currentDefinitions (snd (raise_tick tbl n s)) = currentDefinitions s"
proof (induction n arbitrary: s)
  case 0
  then show ?case by simp
next
  case (Suc n)
  obtain r1 s1 where h: "handleTick tbl s = (r1, s1)"
    by (cases "handleTick tbl s")
  then have fe: "handleTick_forEach tbl (obj_keys (activeDefinitions s)) s = (r1, s1)"
    by (simp add: handleTick_def)
  from handleTick_forEach_listeners [of tbl "obj_keys (activeDefinitions s)" s] fe
    handleTick_forEach_frame(1) [OF fe]
  have l: "keydownListener s1 = keydownListener s \<and> keyupListener s1 = keyupListener s
           \<and> tickListeners s1 = tickListeners s \<and> currentDefinitions s1 = currentDefinitions s"
    by simp
  show ?case
  proof (cases r1)
    case (Inl x)
    with h l show ?thesis by simp
  next
    case (Inr u)
    with h l Suc.IH [of s1] show ?thesis by simp
  qed
qed

text \<open>
  Through the host, every service reached from a new one has its handlers attached
  exactly while definitions are installed.
\<close>

lemma attached_host_deliver:
  assumes "attached s"
  shows "attached (snd (host_deliver tbl i s))"
proof (cases i)
  case (SetKeyboardControls definitions keyMapping z)
  with assms show ?thesis
    by (auto simp: attached_def setKeyboardControls_def removeKeyboardControls_def
        unregisterEvents_def registerEvents_def Let_def split: option.splits if_splits)
next
  case RemoveKeyboardControls
  with assms show ?thesis
    by (auto simp: attached_def removeKeyboardControls_def unregisterEvents_def
        split: if_splits)
next
  case (Keydown e)
  obtain r s' where h: "handleKeydown e s = (r, s')"
    by (cases "handleKeydown e s")
  from handleKeydown_listeners [of e s] handleKeydown_frame(1) [OF h] h assms Keydown
  show ?thesis
    by (simp add: attached_def)
next
  case (Keyup e)
  obtain r s' where h: "handleKeyup e s = (r, s')"
    by (cases "handleKeyup e s")
  from handleKeyup_listeners [of e s] handleKeyup_frame(1) [OF h] h assms Keyup
  show ?thesis
    by (simp add: attached_def)
next
  case Tick
  from raise_tick_frame [of tbl "tickListeners s" s] assms Tick show ?thesis
    by (simp add: attached_def)
qed

lemma attached_host_run: "attached (host_run tbl ins (new_service w))"
proof -
  have "attached s \<Longrightarrow> attached (host_run tbl ins s)" for s :: "'a KeyboardControlService"
    by (induction ins arbitrary: s) (simp_all add: attached_host_deliver)
  then show ?thesis by (simp add: attached_def new_service_def)
qed

text \<open>
  A key that is \<open>IGNORED\<close> stays so, and its action is not executed, as long as the
  definitions are not replaced and no key-up of that key arrives.
\<close>

lemma deliver_held:
  assumes "key_state s k = Some IGNORED" and "keeps_held (keyMappingFn s) k i"
  shows "key_state (deliver tbl i s) k = Some IGNORED
       \<and> action_calls k (calls (deliver tbl i s)) = action_calls k (calls s)
       \<and> keyMappingFn (deliver tbl i s) = keyMappingFn s"
proof (cases i)
  case (SetKeyboardControls definitions keyMapping z)
  with assms show ?thesis by simp
next
  case RemoveKeyboardControls
  with assms show ?thesis by simp
next
  case (Keydown e)
  obtain r s' where h: "handleKeydown e s = (r, s')"
    by (cases "handleKeydown e s")
  from handleKeydown_frame(2) [OF h] handleKeydown_frame(3,5) [OF h, where k = k] assms Keydown h
  show ?thesis
    by (simp add: key_state_def)
next
  case (Keyup e)
  obtain r s' where h: "handleKeyup e s = (r, s')"
    by (cases "handleKeyup e s")
  from handleKeyup_frame(2) [OF h] handleKeyup_frame(3,4) [OF h, where k = k] assms Keyup h
  show ?thesis
    by (auto simp: key_state_def)
next
  case Tick
  obtain r s' where h: "handleTick_forEach tbl (obj_keys (activeDefinitions s)) s = (r, s')"
    by (cases "handleTick_forEach tbl (obj_keys (activeDefinitions s)) s")
  from assms have "key_state s k \<noteq> Some PRESSED" by simp
  from handleTick_forEach_stable [OF this h] handleTick_forEach_frame(2) [OF h] assms Tick h
  show ?thesis
    by (simp add: key_state_def handleTick_def)
qed

lemma run_held:
  assumes "key_state s k = Some IGNORED" and "list_all (keeps_held (keyMappingFn s) k) ins"
  shows "key_state (run tbl ins s) k = Some IGNORED
       \<and> action_calls k (calls (run tbl ins s)) = action_calls k (calls s)"
  using assms
proof (induction ins arbitrary: s)
  case Nil
  then show ?case by simp
next
  case (Cons i ins)
  from Cons.prems have "keeps_held (keyMappingFn s) k i" by simp
  note d = deliver_held [OF Cons.prems(1) this, of tbl]
  with Cons.prems have "list_all (keeps_held (keyMappingFn (deliver tbl i s)) k) ins" by simp
  with d Cons.IH [of "deliver tbl i s"] show ?case by simp
qed

text \<open>Every method keeps the active definitions well-formed.\<close>

lemma snapshot_ok_forEach:
  assumes "list_all snapshot_ok (map snd (activeDefinitions s))"
  shows "list_all snapshot_ok (map snd (activeDefinitions (snd (handleTick_forEach tbl ks s))))"
  using assms
proof (induction ks arbitrary: s)
  case Nil
  then show ?case by simp
next
  case (Cons a ks)
  obtain r1 s1 where h: "handleTick_key tbl a s = (r1, s1)"
    by (cases "handleTick_key tbl a s")
  have "snapshot_ok (ignored :: 'a ActiveDefinition)"
    by (simp add: snapshot_ok_def ignored_def)
  with handleTick_key_frame(5) [OF h] Cons.prems
  have ok: "list_all snapshot_ok (map snd (activeDefinitions s1))"
    by (auto simp: list_all_obj_set)
  show ?case
  proof (cases r1)
    case (Inl x)
    with h ok show ?thesis by simp
  next
    case (Inr u)
    with h Cons.IH [OF ok] show ?thesis by simp
  qed
qed

lemma snapshot_ok_deliver:
  assumes "list_all snapshot_ok (map snd (activeDefinitions s))"
  shows "list_all snapshot_ok (map snd (activeDefinitions (deliver tbl i s)))"
proof (cases i)
  case (SetKeyboardControls definitions keyMapping z)
  have "snapshot_ok (not_pressed :: 'a ActiveDefinition)"
    by (simp add: snapshot_ok_def not_pressed_def)
  with assms SetKeyboardControls show ?thesis
    by (auto simp: setKeyboardControls_def removeKeyboardControls_def unregisterEvents_def
        registerEvents_def Let_def list_all_foldl_set split: option.splits)
next
  case RemoveKeyboardControls
  with assms show ?thesis
    by (simp add: removeKeyboardControls_def unregisterEvents_def)
next
  case (Keydown e)
  obtain r s' where h: "handleKeydown e s = (r, s')"
    by (cases "handleKeydown e s")
  have "snapshot_ok \<lparr> keyboardEvent = Some e, state = PRESSED, activeAction = Some b \<rparr>" for b :: "'a KeyboardControlParams"
    by (simp add: snapshot_ok_def)
  with handleKeydown_frame(6) [OF h] assms Keydown h show ?thesis
    by (auto simp: list_all_obj_set)
next
  case (Keyup e)
  obtain r s' where h: "handleKeyup e s = (r, s')"
    by (cases "handleKeyup e s")
  have "snapshot_ok (\<lparr> keyboardEvent = Some e, state = NOT_PRESSED, activeAction = None \<rparr> :: 'a ActiveDefinition)"
    by (simp add: snapshot_ok_def)
  with handleKeyup_frame(5) [OF h] assms Keyup h show ?thesis
    by (auto simp: list_all_obj_set)
next
  case Tick
  with snapshot_ok_forEach [OF assms] show ?thesis
    by (simp add: handleTick_def)
qed

text \<open>No key has two active definitions.\<close>

lemma distinct_deliver:
  assumes "distinct (map fst (activeDefinitions s))"
  shows "distinct (map fst (activeDefinitions (deliver tbl i s)))"
proof (cases i)
  case (SetKeyboardControls definitions keyMapping z)
  with assms show ?thesis
    by (auto simp: setKeyboardControls_def removeKeyboardControls_def unregisterEvents_def
        registerEvents_def Let_def distinct_foldl_set split: option.splits)
next
  case RemoveKeyboardControls
  with assms show ?thesis
    by (simp add: removeKeyboardControls_def unregisterEvents_def)
next
  case (Keydown e)
  obtain r s' where h: "handleKeydown e s = (r, s')"
    by (cases "handleKeydown e s")
  from handleKeydown_frame(6) [OF h] assms Keydown h show ?thesis
    by (auto simp: distinct_obj_set)
next
  case (Keyup e)
  obtain r s' where h: "handleKeyup e s = (r, s')"
    by (cases "handleKeyup e s")
  from handleKeyup_frame(5) [OF h] assms Keyup h show ?thesis
    by (auto simp: distinct_obj_set)
next
  case Tick
  obtain r s' where h: "handleTick_forEach tbl (obj_keys (activeDefinitions s)) s = (r, s')"
    by (cases "handleTick_forEach tbl (obj_keys (activeDefinitions s)) s")
  from handleTick_forEach_frame(3) [OF h] assms Tick h show ?thesis
    by (simp add: handleTick_def)
qed

lemma distinct_run:
  "distinct (map fst (activeDefinitions (run tbl ins (new_service w))))"
proof -
  have "distinct (map fst (activeDefinitions s)) \<Longrightarrow>
        distinct (map fst (activeDefinitions (run tbl ins s)))" for s :: "'a KeyboardControlService"
    by (induction ins arbitrary: s) (simp_all add: distinct_deliver)
  then show ?thesis by (simp add: new_service_def)
qed

subsection \<open>The examples, evaluated\<close>

lemmas example_defs =
  key_A_def key_B_def key_S_def event_at_def defs_S_def defs_AB_def binding_S_def
  binding_A_def binding_B_def cancelling_action_def plain_action_def throwing_action_def
  done_callback_def counting_params_def no_predefined_def one_predefined_def
  binding_W_def defs_SB_def

lemmas method_defs =
  new_service_def setKeyboardControls_def registerEvents_def obj_keys_def is_array_index_def
  is_digit_def defaultKeyMappingFn_def getAction_def getParams_def handleKeydown_def
  handleKeyup_def handleTick_def handleTick_key_def executeAction_def not_pressed_def
  ignored_def Let_def

lemma s_installed_eq:
  "s_installed =
     \<lparr> currentDefinitions = Some defs_S, activeDefinitions = [(key_S, not_pressed)],
       keyMappingFn = defaultKeyMappingFn, cesiumService = 0,
       keydownListener = True, keyupListener = True, tickListeners = 1, calls = [] \<rparr>"
  by (simp add: s_installed_def example_defs method_defs)

lemma s_down_eq:
  "s_down =
     \<lparr> currentDefinitions = Some defs_S,
       activeDefinitions =
         [(key_S, \<lparr> keyboardEvent = Some (event_at 83 1), state = PRESSED,
                    activeAction = Some binding_S \<rparr>)],
       keyMappingFn = defaultKeyMappingFn, cesiumService = 0,
       keydownListener = True, keyupListener = True, tickListeners = 1, calls = [] \<rparr>"
  by (simp add: s_down_def s_installed_eq) (simp add: example_defs method_defs)

lemma s_tick_eq:
  "s_tick =
     \<lparr> currentDefinitions = Some defs_S, activeDefinitions = [(key_S, ignored)],
       keyMappingFn = defaultKeyMappingFn, cesiumService = 1,
       keydownListener = True, keyupListener = True, tickListeners = 1,
       calls = [ActionCall key_S (JObj []) (Some (event_at 83 1))] \<rparr>"
  by (simp add: s_tick_def s_down_eq) (simp add: example_defs method_defs)

lemma s_up_eq:
  "s_up =
     \<lparr> currentDefinitions = Some defs_S,
       activeDefinitions =
         [(key_S, \<lparr> keyboardEvent = Some (event_at 83 2), state = NOT_PRESSED,
                    activeAction = None \<rparr>)],
       keyMappingFn = defaultKeyMappingFn, cesiumService = 1,
       keydownListener = True, keyupListener = True, tickListeners = 1,
       calls = [ActionCall key_S (JObj []) (Some (event_at 83 1)),
                DoneCall key_S (Some (event_at 83 2))] \<rparr>"
  by (simp add: s_up_def s_tick_eq) (simp add: example_defs method_defs)

lemma ab_installed_eq:
  "ab_installed =
     \<lparr> currentDefinitions = Some defs_AB,
       activeDefinitions = [(key_A, not_pressed), (key_B, not_pressed)],
       keyMappingFn = defaultKeyMappingFn, cesiumService = 0,
       keydownListener = True, keyupListener = True, tickListeners = 1, calls = [] \<rparr>"
  by (simp add: ab_installed_def example_defs method_defs)

lemma ab_down_eq:
  "ab_down =
     \<lparr> currentDefinitions = Some defs_AB,
       activeDefinitions =
         [(key_A, \<lparr> keyboardEvent = Some (event_at 65 1), state = PRESSED,
                    activeAction = Some binding_A \<rparr>),
          (key_B, \<lparr> keyboardEvent = Some (event_at 66 2), state = PRESSED,
                    activeAction = Some binding_B \<rparr>)],
       keyMappingFn = defaultKeyMappingFn, cesiumService = 0,
       keydownListener = True, keyupListener = True, tickListeners = 1,
       calls = [ParamsCall (Some (event_at 66 2))] \<rparr>"
  by (simp add: ab_down_def ab_installed_eq) (simp add: example_defs method_defs)

lemma ab_tick_eq:
  "ab_tick =
     (Inl (Thrown (JStr [])),
      ab_down\<lparr> calls := [ParamsCall (Some (event_at 66 2)),
                          ActionCall key_A (JObj []) (Some (event_at 65 1))] \<rparr>)"
  by (simp add: ab_tick_def ab_down_eq) (simp add: example_defs method_defs)

lemma sb_installed_eq:
  "sb_installed =
     \<lparr> currentDefinitions = Some defs_SB,
       activeDefinitions = [(key_S, not_pressed), (key_B, not_pressed)],
       keyMappingFn = defaultKeyMappingFn, cesiumService = 0,
       keydownListener = True, keyupListener = True, tickListeners = 1, calls = [] \<rparr>"
  by (simp add: sb_installed_def example_defs method_defs)

lemma sb_down_eq:
  "sb_down =
     \<lparr> currentDefinitions = Some defs_SB,
       activeDefinitions =
         [(key_S, \<lparr> keyboardEvent = Some (event_at 83 1), state = PRESSED,
                    activeAction = Some binding_S \<rparr>),
          (key_B, \<lparr> keyboardEvent = Some (event_at 66 2), state = PRESSED,
                    activeAction = Some binding_B \<rparr>)],
       keyMappingFn = defaultKeyMappingFn, cesiumService = 0,
       keydownListener = True, keyupListener = True, tickListeners = 1,
       calls = [ParamsCall (Some (event_at 66 2))] \<rparr>"
  by (simp add: sb_down_def sb_installed_eq) (simp add: example_defs method_defs)

lemma sb_mid_eq:
  "sb_mid =
     sb_down\<lparr> activeDefinitions :=
                 [(key_S, ignored),
                  (key_B, \<lparr> keyboardEvent = Some (event_at 66 2), state = PRESSED,
                            activeAction = Some binding_B \<rparr>)],
               cesiumService := 1,
               calls := [ParamsCall (Some (event_at 66 2)),
                         ActionCall key_S (JObj []) (Some (event_at 83 1))] \<rparr>"
  by (simp add: sb_mid_def sb_down_eq) (simp add: example_defs method_defs)

lemma sb_tick_eq:
  "sb_tick =
     \<lparr> currentDefinitions = Some defs_SB,
       activeDefinitions =
         [(key_S, ignored),
          (key_B, \<lparr> keyboardEvent = Some (event_at 66 2), state = PRESSED,
                    activeAction = Some binding_B \<rparr>)],
       keyMappingFn = defaultKeyMappingFn, cesiumService = 2,
       keydownListener = True, keyupListener = True, tickListeners = 1,
       calls = [ParamsCall (Some (event_at 66 2)),
                ActionCall key_S (JObj []) (Some (event_at 83 1)),
                ParamsCall (Some (event_at 66 2)),
                ActionCall key_B (JNum 1) (Some (event_at 66 2))] \<rparr>"
  by (simp add: sb_tick_def sb_down_eq) (simp add: example_defs method_defs)

lemma sb_tick2_eq:
  "sb_tick2 =
     sb_tick\<lparr> cesiumService := 3,
               calls := calls sb_tick
                 @ [ParamsCall (Some (event_at 66 2)),
                    ActionCall key_B (JNum 2) (Some (event_at 66 2))] \<rparr>"
  by (simp add: sb_tick2_def sb_tick_eq) (simp add: example_defs method_defs)

lemma b_stale_eq:
  "b_stale =
     \<lparr> currentDefinitions = Some defs_S,
       activeDefinitions =
         [(key_S, not_pressed),
          (key_B, \<lparr> keyboardEvent = Some (event_at 66 2), state = PRESSED,
                    activeAction = Some binding_B \<rparr>)],
       keyMappingFn = defaultKeyMappingFn, cesiumService = 0,
       keydownListener = True, keyupListener = True, tickListeners = 1,
       calls = [ParamsCall (Some (event_at 66 2))] \<rparr>"
  by (simp add: b_stale_def sb_installed_eq) (simp add: example_defs method_defs)

lemma run_s_tick:
  "run no_predefined
     [SetKeyboardControls (Some defs_S) None False, Keydown (event_at 83 1), Tick]
     (new_service 0) = s_tick"
  by (simp add: s_tick_def s_down_def s_installed_def)

subsection \<open>Key-up\<close>

text \<open>
  In the third example scenario the action of S cancels on the first tick, so S is
  \<open>IGNORED\<close> when it is released; the key-up still invokes \<^verbatim>\<open>done\<close>.
\<close>

theorem done_invoked_after_cancel:
  "key_state s_tick key_S = Some IGNORED
   \<and> calls (snd (handleKeyup (event_at 83 2) s_tick))
       = calls s_tick @ [DoneCall key_S (Some (event_at 83 2))]"
  using s_up_eq by (simp add: s_up_def s_tick_eq key_state_def ignored_def)

text \<open>
  Claim C1, as the code has it: for every key-up event whose key has a definition in the
  current definitions, whatever the state of the key (\<open>PRESSED\<close>, \<open>IGNORED\<close> or
  \<open>NOT_PRESSED\<close>), the active definition of the key becomes \<open>NOT_PRESSED\<close> with no
  action, and the \<^verbatim>\<open>done\<close> callback of the definition, when it has one, is invoked
  exactly once with the key-up event; without a \<^verbatim>\<open>done\<close> callback nothing is invoked.
\<close>

theorem handleKeyup_releases:
  assumes "currentDefinitions s = Some defs"
    and "obj_get defs (keyMappingFn s e) = Some b"
  shows "obj_get (activeDefinitions (snd (handleKeyup e s))) (keyMappingFn s e)
           = Some \<lparr> keyboardEvent = Some e, state = NOT_PRESSED, activeAction = None \<rparr>
       \<and> calls (snd (handleKeyup e s))
           = calls s @ (case doneFn b of
                          None \<Rightarrow> []
                        | Some d \<Rightarrow> [DoneCall (keyMappingFn s e) (Some e)])"
  using assms
  by (auto simp: handleKeyup_def Let_def getAction_def obj_get_set split_beta
      split: option.splits)

text \<open>An instance: the release of S after its action has cancelled.\<close>

theorem handleKeyup_releases_witness:
  "currentDefinitions s_tick = Some defs_S
   \<and> obj_get defs_S (keyMappingFn s_tick (event_at 83 2)) = Some binding_S
   \<and> key_state s_tick key_S = Some IGNORED
   \<and> obj_get (activeDefinitions (snd (handleKeyup (event_at 83 2) s_tick))) key_S
       = Some \<lparr> keyboardEvent = Some (event_at 83 2), state = NOT_PRESSED,
                 activeAction = None \<rparr>
   \<and> calls (snd (handleKeyup (event_at 83 2) s_tick))
       = calls s_tick @ [DoneCall key_S (Some (event_at 83 2))]"
proof -
  have h1: "currentDefinitions s_tick = Some defs_S"
    by (simp add: s_tick_eq)
  have km: "keyMappingFn s_tick (event_at 83 2) = key_S"
    by (simp add: s_tick_eq defaultKeyMappingFn_def event_at_def key_S_def)
  have h2: "obj_get defs_S (keyMappingFn s_tick (event_at 83 2)) = Some binding_S"
    by (simp add: km defs_S_def)
  have st: "key_state s_tick key_S = Some IGNORED"
    by (simp add: s_tick_eq key_state_def ignored_def)
  from handleKeyup_releases [OF h1 h2] h1 h2 st show ?thesis
    by (simp add: km binding_S_def)
qed

subsection \<open>Installing definitions\<close>

text \<open>
  Claim C2 says that after every installation the active definitions are exactly those of
  the keys of the installed object, each \<open>NOT_PRESSED\<close> with no action and no event,
  and that no key outside the object has one. Evaluated where B is pressed under definitions
  for S and B and then \<open>defs_S\<close> is installed: B is not a key of \<open>defs_S\<close>, yet its
  active definition is still there and \<open>PRESSED\<close>; the key-up of B changes nothing,
  because B has no definition any more; and the tick executes the action of the replaced
  definition of B, which stays \<open>PRESSED\<close>.
\<close>

theorem stale_key_keeps_firing:
  "obj_get defs_S key_B = None
   \<and> currentDefinitions b_stale = Some defs_S
   \<and> key_state b_stale key_B = Some PRESSED
   \<and> handleKeyup (event_at 66 3) b_stale = (Inr (), b_stale)
   \<and> action_calls key_B (calls b_stale) = []
   \<and> action_calls key_B (calls (snd (handleTick no_predefined b_stale)))
       = [ActionCall key_B (JNum 0) (Some (event_at 66 2))]
   \<and> key_state (snd (handleTick no_predefined b_stale)) key_B = Some PRESSED"
  by (simp add: b_stale_eq key_state_def action_calls_def)
     (simp add: example_defs method_defs)

text \<open>
  For the keys of the installed object the installation does reset the active definition;
  every other active definition is left as it was.
\<close>

theorem setKeyboardControls_active:
  assumes "distinct (map fst (activeDefinitions s))"
  shows "currentDefinitions (setKeyboardControls (Some defs) keyMapping z s) = Some defs
       \<and> distinct (map fst (activeDefinitions (setKeyboardControls (Some defs) keyMapping z s)))
       \<and> obj_get (activeDefinitions (setKeyboardControls (Some defs) keyMapping z s)) k
           = (if obj_get defs k \<noteq> None then Some not_pressed
              else obj_get (activeDefinitions s) k)"
  using assms
  by (auto simp: setKeyboardControls_def Let_def registerEvents_def obj_get_foldl_set
      distinct_foldl_set set_obj_keys obj_get_None_iff)



subsection \<open>Handlers without current definitions\<close>

text \<open>
  After S has been pressed and the definitions removed, the key-down and the key-up handler,
  called on the service directly, throw a \<^verbatim>\<open>TypeError\<close>; the tick handler returns with
  the service unchanged.
\<close>

theorem handlers_without_definitions:
  "fst (handleKeydown (event_at 83 3) (removeKeyboardControls s_down)) = Inl TypeError
   \<and> fst (handleKeyup (event_at 83 3) (removeKeyboardControls s_down)) = Inl TypeError
   \<and> handleTick no_predefined (removeKeyboardControls s_down)
       = (Inr (), removeKeyboardControls s_down)"
  by (simp add: s_down_eq removeKeyboardControls_def unregisterEvents_def)
     (simp add: example_defs method_defs)

text \<open>Without current definitions a tick does nothing, however many listeners the clock has.\<close>

lemma handleTick_forEach_no_definitions:
  assumes "currentDefinitions s = None" and "set ks \<subseteq> set (map fst (activeDefinitions s))"
  shows "handleTick_forEach tbl ks s = (Inr (), s)"
  using assms
proof (induction ks)
  case Nil
  then show ?case by simp
next
  case (Cons k ks)
  from Cons.prems(2) have "obj_get (activeDefinitions s) k \<noteq> None"
    by (simp add: obj_get_None_iff)
  with Cons.prems(1) have "handleTick_key tbl k s = (Inr (), s)"
    by (auto simp: handleTick_key_def executeAction_def split: option.splits)
  with Cons show ?case by simp
qed

lemma handleTick_without_definitions:
  assumes "currentDefinitions s = None"
  shows "handleTick tbl s = (Inr (), s)"
  unfolding handleTick_def
  by (rule handleTick_forEach_no_definitions [OF assms]) (simp add: set_obj_keys)

lemma raise_tick_without_definitions:
  assumes "currentDefinitions s = None"
  shows "raise_tick tbl n s = (Inr (), s)"
  by (induction n) (simp_all add: handleTick_without_definitions [OF assms])

lemma host_deliver_after_remove:
  assumes "is_event i"
  shows "host_deliver tbl i (removeKeyboardControls s) = (Inr (), removeKeyboardControls s)"
proof (cases i)
  case Tick
  have "currentDefinitions (removeKeyboardControls s) = None"
    by (simp add: removeKeyboardControls_def)
  then show ?thesis
    by (simp add: Tick raise_tick_without_definitions)
qed (use assms in \<open>simp_all add: removeKeyboardControls_def unregisterEvents_def\<close>)

text \<open>
  Claim C3, as the code has it: \<^verbatim>\<open>removeKeyboardControls\<close> detaches the handlers, so
  after it no key-down, key-up or tick event of the host reaches the service: every such
  event, and every sequence of them, leaves the service unchanged, invokes no callback and
  throws nothing. The tick handler, moreover, does nothing and does not throw when it is
  called without current definitions.
\<close>

theorem events_after_remove:
  assumes "list_all is_event evs"
  shows "host_run tbl evs (removeKeyboardControls s) = removeKeyboardControls s
       \<and> list_all (\<lambda>i. host_deliver tbl i (removeKeyboardControls s)
                          = (Inr (), removeKeyboardControls s)) evs
       \<and> handleTick tbl (removeKeyboardControls s) = (Inr (), removeKeyboardControls s)"
proof -
  have "currentDefinitions (removeKeyboardControls s) = None"
    by (simp add: removeKeyboardControls_def)
  then have t: "handleTick tbl (removeKeyboardControls s) = (Inr (), removeKeyboardControls s)"
    by (rule handleTick_without_definitions)
  from assms
  have "host_run tbl evs (removeKeyboardControls s) = removeKeyboardControls s
       \<and> list_all (\<lambda>i. host_deliver tbl i (removeKeyboardControls s)
                          = (Inr (), removeKeyboardControls s)) evs"
    by (induction evs) (simp_all add: host_deliver_after_remove)
  with t show ?thesis by simp
qed

text \<open>An instance: events after the definitions have been removed while S was pressed.\<close>

theorem events_after_remove_witness:
  "list_all is_event [Keydown (event_at 83 3), Tick, Keyup (event_at 83 4) :: nat input]
   \<and> key_state (removeKeyboardControls s_down) key_S = Some PRESSED
   \<and> host_run no_predefined [Keydown (event_at 83 3), Tick, Keyup (event_at 83 4)]
        (removeKeyboardControls s_down) = removeKeyboardControls s_down
   \<and> host_deliver no_predefined (Keydown (event_at 83 3)) (removeKeyboardControls s_down)
       = (Inr (), removeKeyboardControls s_down)
   \<and> host_deliver no_predefined Tick (removeKeyboardControls s_down)
       = (Inr (), removeKeyboardControls s_down)
   \<and> host_deliver no_predefined (Keyup (event_at 83 4)) (removeKeyboardControls s_down)
       = (Inr (), removeKeyboardControls s_down)
   \<and> handleTick no_predefined (removeKeyboardControls s_down)
       = (Inr (), removeKeyboardControls s_down)"
proof -
  let ?evs = "[Keydown (event_at 83 3), Tick, Keyup (event_at 83 4)] :: nat input list"
  have h: "list_all is_event ?evs"
    by simp
  have st: "key_state (removeKeyboardControls s_down) key_S = Some PRESSED"
    by (simp add: key_state_def removeKeyboardControls_def unregisterEvents_def s_down_eq)
  note t = events_after_remove [OF h, of no_predefined s_down]
  from t have a: "host_run no_predefined ?evs (removeKeyboardControls s_down)
                    = removeKeyboardControls s_down"
    by (rule conjunct1)
  from t have b: "list_all (\<lambda>i. host_deliver no_predefined i (removeKeyboardControls s_down)
                     = (Inr (), removeKeyboardControls s_down)) ?evs"
    by (simp only:)
  from t have c: "handleTick no_predefined (removeKeyboardControls s_down)
                    = (Inr (), removeKeyboardControls s_down)"
    by (simp only:)
  from b have d: "host_deliver no_predefined (Keydown (event_at 83 3)) (removeKeyboardControls s_down)
       = (Inr (), removeKeyboardControls s_down)"
    and e: "host_deliver no_predefined Tick (removeKeyboardControls s_down)
       = (Inr (), removeKeyboardControls s_down)"
    and f: "host_deliver no_predefined (Keyup (event_at 83 4)) (removeKeyboardControls s_down)
       = (Inr (), removeKeyboardControls s_down)"
    by (simp_all del: host_deliver.simps)
  from h st a d e f c show ?thesis
    by (intro conjI)
qed

subsection \<open>Exceptions during a tick\<close>

text \<open>
  A and B are pressed and the action of A throws: the tick ends with the exception and
  the action of B is not executed on that tick.
\<close>

theorem exception_skips_later_keys:
  "key_state ab_down key_B = Some PRESSED
   \<and> fst (handleTick no_predefined ab_down) = Inl (Thrown (JStr []))
   \<and> action_calls key_B (calls (snd (handleTick no_predefined ab_down))) = []"
  using ab_tick_eq
  by (simp add: ab_tick_def ab_down_eq key_state_def action_calls_def key_A_def key_B_def)

text \<open>
  Claim C4, as the code has it: when, during one tick, the keys before \<open>k\<close> are handled
  without exception and the handling of \<open>k\<close> throws, the tick ends with that exception
  at once. The throwing call changes no active definition, the current definitions and the
  mapping function are unchanged, every key that was not handled before \<open>k\<close> has the
  active definition it had before the tick, no action callback of a key after \<open>k\<close> has
  been invoked, and the next tick visits the same keys again.
\<close>

theorem tick_exception_propagates:
  assumes "obj_keys (activeDefinitions s) = pre @ k # post"
    and "handleTick_forEach tbl pre s = (Inr (), s1)"
    and "handleTick_key tbl k s1 = (Inl x, s2)"
  shows "handleTick tbl s = (Inl x, s2)
       \<and> activeDefinitions s2 = activeDefinitions s1
       \<and> currentDefinitions s2 = currentDefinitions s
       \<and> keyMappingFn s2 = keyMappingFn s
       \<and> (\<forall>k'. k' \<notin> set pre \<longrightarrow>
            obj_get (activeDefinitions s2) k' = obj_get (activeDefinitions s) k')
       \<and> (\<forall>k'. k' \<notin> set (pre @ [k]) \<longrightarrow>
            action_calls k' (calls s2) = action_calls k' (calls s))
       \<and> obj_keys (activeDefinitions s2) = obj_keys (activeDefinitions s)"
proof -
  note pre = handleTick_forEach_frame [OF assms(2)]
  note key = handleTick_key_frame [OF assms(3)]
  have "handleTick_forEach tbl (pre @ k # post) s = (Inl x, s2)"
    by (simp add: handleTick_forEach_append assms(2) assms(3))
  then have c1: "handleTick tbl s = (Inl x, s2)"
    by (simp add: handleTick_def assms(1))
  have c2: "activeDefinitions s2 = activeDefinitions s1"
    by (rule key(6)) simp
  have c3: "currentDefinitions s2 = currentDefinitions s"
    by (simp only: pre(1) key(1))
  have c4: "keyMappingFn s2 = keyMappingFn s"
    by (simp only: pre(2) key(2))
  have c5: "\<forall>k'. k' \<notin> set pre \<longrightarrow>
            obj_get (activeDefinitions s2) k' = obj_get (activeDefinitions s) k'"
    by (simp add: c2 pre(4))
  have c6: "\<forall>k'. k' \<notin> set (pre @ [k]) \<longrightarrow>
            action_calls k' (calls s2) = action_calls k' (calls s)"
    by (simp add: pre(5) key(4))
  have "map fst (activeDefinitions s2) = map fst (activeDefinitions s)"
    by (simp only: pre(3) key(7))
  then have c7: "obj_keys (activeDefinitions s2) = obj_keys (activeDefinitions s)"
    by (rule obj_keys_cong)
  from c1 c2 c3 c4 c5 c6 c7 show ?thesis
    by (intro conjI)
qed

text \<open>An instance: the tick over the pressed keys A and B.\<close>

theorem tick_exception_propagates_witness:
  "obj_keys (activeDefinitions ab_down) = [] @ key_A # [key_B]
   \<and> handleTick_forEach no_predefined [] ab_down = (Inr (), ab_down)
   \<and> handleTick_key no_predefined key_A ab_down = (Inl (Thrown (JStr [])), snd ab_tick)
   \<and> handleTick no_predefined ab_down = (Inl (Thrown (JStr [])), snd ab_tick)
   \<and> activeDefinitions (snd ab_tick) = activeDefinitions ab_down
   \<and> obj_get (activeDefinitions (snd ab_tick)) key_B = obj_get (activeDefinitions ab_down) key_B
   \<and> action_calls key_B (calls (snd ab_tick)) = action_calls key_B (calls ab_down)"
proof -
  have h1: "obj_keys (activeDefinitions ab_down) = [] @ key_A # [key_B]"
    by (simp add: ab_down_eq obj_keys_def is_array_index_def is_digit_def key_A_def key_B_def)
  have h2: "handleTick_forEach no_predefined [] ab_down = (Inr (), ab_down)"
    by simp
  have h3: "handleTick_key no_predefined key_A ab_down = (Inl (Thrown (JStr [])), snd ab_tick)"
    by (simp add: ab_tick_eq) (simp add: ab_down_eq example_defs method_defs)
  have ne: "key_B \<notin> set []" "key_B \<notin> set ([] @ [key_A])"
    by (simp_all add: key_A_def key_B_def)
  from tick_exception_propagates [OF h1 h2 h3] h1 h2 h3 ne show ?thesis
    by simp
qed

subsection \<open>The fields of an active definition\<close>

text \<open>
  After its action has cancelled, S is \<open>IGNORED\<close> and holds neither an action nor an
  event.
\<close>

theorem empty_snapshot_while_ignored:
  "map_option state
     (obj_get (activeDefinitions
        (run no_predefined
           [SetKeyboardControls (Some defs_S) None False, Keydown (event_at 83 1), Tick]
           (new_service 0))) key_S) = Some IGNORED
   \<and> map_option keyboardEvent
     (obj_get (activeDefinitions
        (run no_predefined
           [SetKeyboardControls (Some defs_S) None False, Keydown (event_at 83 1), Tick]
           (new_service 0))) key_S) = Some None
   \<and> map_option activeAction
     (obj_get (activeDefinitions
        (run no_predefined
           [SetKeyboardControls (Some defs_S) None False, Keydown (event_at 83 1), Tick]
           (new_service 0))) key_S) = Some None"
  by (simp only: run_s_tick) (simp add: s_tick_eq ignored_def)

text \<open>
  Claim C5, as the code has it: in every service that the host can reach from a new one,
  an active definition holds an action if and only if its state is \<open>PRESSED\<close>; it holds
  its key-down event when \<open>PRESSED\<close> and no event when \<open>IGNORED\<close>.
\<close>

theorem snapshot_invariant:
  "list_all snapshot_ok (map snd (activeDefinitions (run tbl ins (new_service w))))"
proof -
  have "list_all snapshot_ok (map snd (activeDefinitions s)) \<Longrightarrow>
        list_all snapshot_ok (map snd (activeDefinitions (run tbl ins s)))" for s :: "'a KeyboardControlService"
    by (induction ins arbitrary: s) (simp_all add: snapshot_ok_deliver)
  then show ?thesis by (simp add: new_service_def)
qed

subsection \<open>Cancellation\<close>

text \<open>
  Claim C6: let a tick reach the key \<open>k\<close>, which is \<open>PRESSED\<close> with a callback as
  action, and let the callback return the value \<open>v\<close>. The callback is invoked once on that
  tick. If \<open>v\<close> is \<^verbatim>\<open>false\<close>, the key is \<open>IGNORED\<close> after the tick, and stays
  \<open>IGNORED\<close> with no further invocation of its action through every sequence of ticks,
  key-down events and key-up events of other keys. For any other \<open>v\<close> the active
  definition of \<open>k\<close> is unchanged, hence \<open>PRESSED\<close>.
\<close>

theorem false_cancels_until_keyup:
  assumes "distinct (map fst (activeDefinitions s0))"
    and "obj_keys (activeDefinitions s0) = pre @ k # post"
    and "handleTick_forEach tbl pre s0 = (Inr (), s)"
    and "currentDefinitions s \<noteq> None"
    and "obj_get (activeDefinitions s) k = Some a"
    and "state a = PRESSED" and "activeAction a = Some b" and "action b = ActionFn f"
    and "getParams (params b) (keyboardEvent a) s = (Inr p, s1)"
    and "f (cesiumService s1) p (keyboardEvent a) = (Inr v, w)"
  shows "action_calls k (calls (snd (handleTick tbl s0)))
           = action_calls k (calls s0) @ [ActionCall k p (keyboardEvent a)]
       \<and> (if v = JBool False
          then key_state (snd (handleTick tbl s0)) k = Some IGNORED
             \<and> (\<forall>ins. list_all (keeps_held (keyMappingFn s0) k) ins \<longrightarrow>
                  key_state (run tbl ins (snd (handleTick tbl s0))) k = Some IGNORED
                \<and> action_calls k (calls (run tbl ins (snd (handleTick tbl s0))))
                  = action_calls k (calls (snd (handleTick tbl s0))))
          else obj_get (activeDefinitions (snd (handleTick tbl s0))) k = Some a)"
proof -
  from assms(1) have "distinct (obj_keys (activeDefinitions s0))"
    by (rule distinct_obj_keys)
  then have notin: "k \<notin> set pre" "k \<notin> set post"
    by (simp_all add: assms(2))
  note pre = handleTick_forEach_frame [OF assms(3)]
  note gp = getParams_frame [OF assms(9)]
  define s2 where "s2 = s1\<lparr> cesiumService := w,
                             calls := calls s1 @ [ActionCall k p (keyboardEvent a)] \<rparr>"
  define s3 where "s3 = (if v = JBool False
                         then s2\<lparr> activeDefinitions := obj_set (activeDefinitions s2) k ignored \<rparr>
                         else s2)"
  have "executeAction tbl b k (keyboardEvent a) s = (Inr (), s3)"
    by (simp add: executeAction_def assms(4) assms(8) assms(9) assms(10) Let_def s2_def s3_def)
  then have key: "handleTick_key tbl k s = (Inr (), s3)"
    by (simp add: handleTick_key_def assms(5) assms(6) assms(7))
  have entry: "obj_get (activeDefinitions s3) k = (if v = JBool False then Some ignored else Some a)"
    by (simp add: s3_def s2_def obj_get_set gp(2) assms(5))
  have "action_calls k (calls s3) = action_calls k (calls s1) @ [ActionCall k p (keyboardEvent a)]"
    by (simp add: s3_def s2_def action_calls_def)
  then have called: "action_calls k (calls s3)
                  = action_calls k (calls s0) @ [ActionCall k p (keyboardEvent a)]"
    by (simp add: gp(4) pre(5) notin(1))
  obtain r4 s4 where post: "handleTick_forEach tbl post s3 = (r4, s4)"
    by (cases "handleTick_forEach tbl post s3")
  note fr = handleTick_forEach_frame [OF post]
  have "handleTick_forEach tbl (pre @ k # post) s0 = (r4, s4)"
    by (simp add: handleTick_forEach_append assms(3) key post)
  then have tick: "handleTick tbl s0 = (r4, s4)"
    by (simp add: handleTick_def assms(2))
  have km: "keyMappingFn s4 = keyMappingFn s0"
    by (simp only: fr(2) handleTick_key_frame(2) [OF key] pre(2))
  have e4: "obj_get (activeDefinitions s4) k = (if v = JBool False then Some ignored else Some a)"
    by (simp add: fr(4) notin(2) entry)
  have c4: "action_calls k (calls s4)
              = action_calls k (calls s0) @ [ActionCall k p (keyboardEvent a)]"
    by (simp add: fr(5) notin(2) called)
  show ?thesis
  proof (cases "v = JBool False")
    case True
    with e4 have ign: "key_state s4 k = Some IGNORED"
      by (simp add: key_state_def ignored_def)
    have "key_state (run tbl ins s4) k = Some IGNORED
          \<and> action_calls k (calls (run tbl ins s4)) = action_calls k (calls s4)"
      if "list_all (keeps_held (keyMappingFn s0) k) ins" for ins
      by (rule run_held [OF ign]) (simp add: km that)
    with True ign c4 show ?thesis by (simp add: tick)
  next
    case False
    with e4 c4 show ?thesis by (simp add: tick)
  qed
qed

text \<open>
  Two instances in the tick over the pressed keys S and B: the action of S returns
  \<^verbatim>\<open>false\<close>, the action of B returns \<^verbatim>\<open>undefined\<close>.
\<close>

theorem false_cancels_until_keyup_witness:
  "distinct (map fst (activeDefinitions sb_down))
   \<and> obj_keys (activeDefinitions sb_down) = [] @ key_S # [key_B]
   \<and> handleTick_forEach no_predefined [] sb_down = (Inr (), sb_down)
   \<and> currentDefinitions sb_down \<noteq> None
   \<and> obj_get (activeDefinitions sb_down) key_S
       = Some \<lparr> keyboardEvent = Some (event_at 83 1), state = PRESSED,
                 activeAction = Some binding_S \<rparr>
   \<and> action binding_S = ActionFn cancelling_action
   \<and> getParams (params binding_S) (Some (event_at 83 1)) sb_down = (Inr (JObj []), sb_down)
   \<and> cancelling_action (cesiumService sb_down) (JObj []) (Some (event_at 83 1))
       = (Inr (JBool False), 1)
   \<and> list_all (keeps_held (keyMappingFn sb_down) key_S)
        [Tick, Keydown (event_at 83 3), Keyup (event_at 66 4), Tick]
   \<and> key_state (snd (handleTick no_predefined sb_down)) key_S = Some IGNORED
   \<and> key_state
        (run no_predefined [Tick, Keydown (event_at 83 3), Keyup (event_at 66 4), Tick]
           (snd (handleTick no_predefined sb_down))) key_S = Some IGNORED
   \<and> action_calls key_S
        (calls (run no_predefined [Tick, Keydown (event_at 83 3), Keyup (event_at 66 4), Tick]
           (snd (handleTick no_predefined sb_down))))
       = [ActionCall key_S (JObj []) (Some (event_at 83 1))]
   \<and> obj_keys (activeDefinitions sb_down) = [key_S] @ key_B # []
   \<and> handleTick_forEach no_predefined [key_S] sb_down = (Inr (), sb_mid)
   \<and> obj_get (activeDefinitions sb_mid) key_B
       = Some \<lparr> keyboardEvent = Some (event_at 66 2), state = PRESSED,
                 activeAction = Some binding_B \<rparr>
   \<and> action binding_B = ActionFn plain_action
   \<and> getParams (params binding_B) (Some (event_at 66 2)) sb_mid
       = (Inr (JNum 1), sb_mid\<lparr> calls := calls sb_mid @ [ParamsCall (Some (event_at 66 2))] \<rparr>)
   \<and> plain_action 1 (JNum 1) (Some (event_at 66 2)) = (Inr JUndefined, 2)
   \<and> obj_get (activeDefinitions (snd (handleTick no_predefined sb_down))) key_B
       = Some \<lparr> keyboardEvent = Some (event_at 66 2), state = PRESSED,
                 activeAction = Some binding_B \<rparr>
   \<and> action_calls key_B (calls (snd (handleTick no_predefined sb_down)))
       = [ActionCall key_B (JNum 1) (Some (event_at 66 2))]"
proof -
  let ?e = "Some (event_at 83 1)" and ?e' = "Some (event_at 66 2)"
  let ?a = "\<lparr> keyboardEvent = ?e, state = PRESSED, activeAction = Some binding_S \<rparr>"
  let ?a' = "\<lparr> keyboardEvent = ?e', state = PRESSED, activeAction = Some binding_B \<rparr>"
  let ?ins = "[Tick, Keydown (event_at 83 3), Keyup (event_at 66 4), Tick] :: nat input list"
  have h1: "distinct (map fst (activeDefinitions sb_down))"
    by (simp add: sb_down_eq key_S_def key_B_def)
  have h2: "obj_keys (activeDefinitions sb_down) = [] @ key_S # [key_B]"
    by (simp add: sb_down_eq obj_keys_def is_array_index_def is_digit_def key_S_def key_B_def)
  have h3: "handleTick_forEach no_predefined [] sb_down = (Inr (), sb_down)"
    by simp
  have h4: "currentDefinitions sb_down \<noteq> None"
    by (simp add: sb_down_eq)
  have h5: "obj_get (activeDefinitions sb_down) key_S = Some ?a"
    by (simp add: sb_down_eq)
  have h6: "state ?a = PRESSED" and h7: "activeAction ?a = Some binding_S"
    by simp_all
  have h8: "action binding_S = ActionFn cancelling_action"
    by (simp add: binding_S_def)
  have h9: "getParams (params binding_S) (keyboardEvent ?a) sb_down = (Inr (JObj []), sb_down)"
    by (simp add: binding_S_def getParams_def)
  have h10: "cancelling_action (cesiumService sb_down) (JObj []) (keyboardEvent ?a)
               = (Inr (JBool False), 1)"
    by (simp add: cancelling_action_def sb_down_eq)
  have held: "list_all (keeps_held (keyMappingFn sb_down) key_S) ?ins"
    by (simp add: sb_down_eq defaultKeyMappingFn_def event_at_def key_S_def)
  have i2: "obj_keys (activeDefinitions sb_down) = [key_S] @ key_B # []"
    using h2 by simp
  have i3: "handleTick_forEach no_predefined [key_S] sb_down = (Inr (), sb_mid)"
    by (simp add: sb_mid_eq) (simp add: sb_down_eq example_defs method_defs)
  have i4: "currentDefinitions sb_mid \<noteq> None"
    by (simp add: sb_mid_eq sb_down_eq)
  have i5: "obj_get (activeDefinitions sb_mid) key_B = Some ?a'"
    by (simp add: sb_mid_eq key_S_def key_B_def)
  have i6: "state ?a' = PRESSED" and i7: "activeAction ?a' = Some binding_B"
    by simp_all
  have i8: "action binding_B = ActionFn plain_action"
    by (simp add: binding_B_def)
  have i9: "getParams (params binding_B) (keyboardEvent ?a') sb_mid
              = (Inr (JNum 1), sb_mid\<lparr> calls := calls sb_mid @ [ParamsCall ?e'] \<rparr>)"
    by (simp add: binding_B_def getParams_def counting_params_def sb_mid_eq)
  have i10: "plain_action
               (cesiumService (sb_mid\<lparr> calls := calls sb_mid @ [ParamsCall ?e'] \<rparr>))
               (JNum 1) (keyboardEvent ?a') = (Inr JUndefined, 2)"
    by (simp add: plain_action_def sb_mid_eq)
  have c0: "action_calls key_S (calls sb_down) = []" "action_calls key_B (calls sb_down) = []"
    by (simp_all add: sb_down_eq action_calls_def)
  note t1 = false_cancels_until_keyup [OF h1 h2 h3 h4 h5 h6 h7 h8 h9 h10]
  note t2 = false_cancels_until_keyup [OF h1 i2 i3 i4 i5 i6 i7 i8 i9 i10]
  from t1 have a1: "action_calls key_S (calls (snd (handleTick no_predefined sb_down)))
                     = action_calls key_S (calls sb_down) @ [ActionCall key_S (JObj []) ?e]"
    and a2: "key_state (snd (handleTick no_predefined sb_down)) key_S = Some IGNORED"
    and a3: "\<forall>ins. list_all (keeps_held (keyMappingFn sb_down) key_S) ins \<longrightarrow>
               key_state (run no_predefined ins (snd (handleTick no_predefined sb_down))) key_S
                 = Some IGNORED
               \<and> action_calls key_S
                    (calls (run no_predefined ins (snd (handleTick no_predefined sb_down))))
                 = action_calls key_S (calls (snd (handleTick no_predefined sb_down)))"
    by simp_all
  from a3 held
  have a4: "key_state (run no_predefined ?ins (snd (handleTick no_predefined sb_down))) key_S
              = Some IGNORED
            \<and> action_calls key_S
                 (calls (run no_predefined ?ins (snd (handleTick no_predefined sb_down))))
              = action_calls key_S (calls (snd (handleTick no_predefined sb_down)))"
    by blast
  have r1: "key_state (snd (handleTick no_predefined sb_down)) key_S = Some IGNORED
     \<and> key_state (run no_predefined ?ins (snd (handleTick no_predefined sb_down))) key_S
         = Some IGNORED
     \<and> action_calls key_S
          (calls (run no_predefined ?ins (snd (handleTick no_predefined sb_down))))
         = [ActionCall key_S (JObj []) ?e]"
    by (simp only: a2 a4 a1 c0 append_Nil simp_thms)
  from t2 c0
  have r2: "obj_get (activeDefinitions (snd (handleTick no_predefined sb_down))) key_B = Some ?a'
     \<and> action_calls key_B (calls (snd (handleTick no_predefined sb_down)))
         = [ActionCall key_B (JNum 1) ?e']"
    by simp
  have p: "plain_action 1 (JNum 1) ?e' = (Inr JUndefined, 2)"
    by (simp add: plain_action_def)
  from h1 h2 h3 h4 h5 h8 h9 h10 held i2 i3 i5 i8 i9 p r1 r2 show ?thesis
    by simp
qed

text \<open>
  Claim C10: when the action callback executed for the key \<open>k\<close> returns \<^verbatim>\<open>false\<close>,
  the active definition of \<open>k\<close> becomes the \<open>IGNORED\<close> one; the active definition of
  every other key, the current definitions and the mapping function are unchanged.
\<close>

theorem cancellation_is_local:
  assumes "currentDefinitions s \<noteq> None"
    and "action b = ActionFn f"
    and "getParams (params b) e s = (Inr p, s1)"
    and "f (cesiumService s1) p e = (Inr (JBool False), w)"
  shows "obj_get (activeDefinitions (snd (executeAction tbl b k e s))) k = Some ignored
       \<and> (\<forall>k'. k' \<noteq> k \<longrightarrow>
            obj_get (activeDefinitions (snd (executeAction tbl b k e s))) k'
            = obj_get (activeDefinitions s) k')
       \<and> currentDefinitions (snd (executeAction tbl b k e s)) = currentDefinitions s
       \<and> keyMappingFn (snd (executeAction tbl b k e s)) = keyMappingFn s"
  using assms getParams_frame(1,2,3) [OF assms(3)]
  by (auto simp: executeAction_def Let_def obj_get_set)

text \<open>An instance: the action of S cancels while B is pressed.\<close>

theorem cancellation_is_local_witness:
  "currentDefinitions sb_down \<noteq> None
   \<and> action binding_S = ActionFn cancelling_action
   \<and> getParams (params binding_S) (Some (event_at 83 1)) sb_down = (Inr (JObj []), sb_down)
   \<and> cancelling_action (cesiumService sb_down) (JObj []) (Some (event_at 83 1))
       = (Inr (JBool False), 1)
   \<and> obj_get (activeDefinitions
        (snd (executeAction no_predefined binding_S key_S (Some (event_at 83 1)) sb_down))) key_S
       = Some ignored
   \<and> obj_get (activeDefinitions
        (snd (executeAction no_predefined binding_S key_S (Some (event_at 83 1)) sb_down))) key_B
       = Some \<lparr> keyboardEvent = Some (event_at 66 2), state = PRESSED,
                 activeAction = Some binding_B \<rparr>
   \<and> currentDefinitions
        (snd (executeAction no_predefined binding_S key_S (Some (event_at 83 1)) sb_down))
       = Some defs_SB"
proof -
  let ?e = "Some (event_at 83 1)"
  have h1: "currentDefinitions sb_down \<noteq> None"
    by (simp add: sb_down_eq)
  have h2: "action binding_S = ActionFn cancelling_action"
    by (simp add: binding_S_def)
  have h3: "getParams (params binding_S) ?e sb_down = (Inr (JObj []), sb_down)"
    by (simp add: binding_S_def getParams_def)
  have h4: "cancelling_action (cesiumService sb_down) (JObj []) ?e = (Inr (JBool False), 1)"
    by (simp add: cancelling_action_def sb_down_eq)
  have ne: "key_B \<noteq> key_S"
    by (simp add: key_B_def key_S_def)
  have b: "obj_get (activeDefinitions sb_down) key_B
             = Some \<lparr> keyboardEvent = Some (event_at 66 2), state = PRESSED,
                       activeAction = Some binding_B \<rparr>"
    and d: "currentDefinitions sb_down = Some defs_SB"
    by (simp_all add: sb_down_eq key_B_def key_S_def)
  from cancellation_is_local [OF h1 h2 h3 h4, of no_predefined key_S] ne b d h1 h2 h3 h4
  show ?thesis
    by simp
qed

subsection \<open>Predefined actions and parameters\<close>

text \<open>
  Claim C8: let the action of a definition be a number \<open>n\<close>, with definitions installed
  and the parameters resolved. If the table of predefined actions has no entry for \<open>n\<close>,
  the execution returns normally with the service as the resolution of the parameters left
  it. If it has one, that function is invoked once with the \<^verbatim>\<open>cesiumService\<close>, the
  parameters and the event, and its return value is dropped. In both cases the active
  definitions are unchanged, so a predefined action never makes a key \<open>IGNORED\<close>.
\<close>

theorem predefined_action_execution:
  assumes "action b = ActionId n"
    and "currentDefinitions s \<noteq> None"
    and "getParams (params b) e s = (Inr p, s1)"
  shows "(tbl n = None \<longrightarrow> executeAction tbl b k e s = (Inr (), s1))
       \<and> (\<forall>g r w. tbl n = Some g \<longrightarrow> g (cesiumService s1) p e = (r, w) \<longrightarrow>
            executeAction tbl b k e s =
              (map_sum id (\<lambda>_. ()) r,
               s1\<lparr> cesiumService := w, calls := calls s1 @ [PredefinedCall n p e] \<rparr>))
       \<and> activeDefinitions (snd (executeAction tbl b k e s)) = activeDefinitions s"
  using assms getParams_frame(2) [OF assms(3)]
  by (auto simp: executeAction_def split: option.splits prod.splits)

text \<open>
  Two instances for the pressed key S: an id without entry, and an id whose predefined
  action returns \<^verbatim>\<open>false\<close>.
\<close>

theorem predefined_action_execution_witness:
  "action (binding_W 42) = ActionId 42
   \<and> currentDefinitions s_down \<noteq> None
   \<and> getParams (params (binding_W 42)) (Some (event_at 83 1)) s_down = (Inr (JObj []), s_down)
   \<and> no_predefined 42 = None
   \<and> executeAction no_predefined (binding_W 42) key_S (Some (event_at 83 1)) s_down
       = (Inr (), s_down)
   \<and> one_predefined 42 = Some cancelling_action
   \<and> cancelling_action (cesiumService s_down) (JObj []) (Some (event_at 83 1))
       = (Inr (JBool False), 1)
   \<and> executeAction one_predefined (binding_W 42) key_S (Some (event_at 83 1)) s_down
       = (Inr (),
          s_down\<lparr> cesiumService := 1,
                   calls := calls s_down @ [PredefinedCall 42 (JObj []) (Some (event_at 83 1))] \<rparr>)
   \<and> key_state
        (snd (executeAction one_predefined (binding_W 42) key_S (Some (event_at 83 1)) s_down))
        key_S = Some PRESSED"
proof -
  let ?e = "Some (event_at 83 1)"
  have h1: "action (binding_W 42) = ActionId 42"
    by (simp add: binding_W_def)
  have h2: "currentDefinitions s_down \<noteq> None"
    by (simp add: s_down_eq)
  have h3: "getParams (params (binding_W 42)) ?e s_down = (Inr (JObj []), s_down)"
    by (simp add: binding_W_def getParams_def)
  have n: "no_predefined 42 = None"
    by (simp add: no_predefined_def)
  have o: "one_predefined 42 = Some cancelling_action"
    by (simp add: one_predefined_def)
  have c: "cancelling_action (cesiumService s_down) (JObj []) ?e = (Inr (JBool False), 1)"
    by (simp add: cancelling_action_def s_down_eq)
  have st: "key_state s_down key_S = Some PRESSED"
    by (simp add: key_state_def s_down_eq)
  note t1 = predefined_action_execution [OF h1 h2 h3, of no_predefined key_S]
  note t2 = predefined_action_execution [OF h1 h2 h3, of one_predefined key_S]
  from t1 n have r1: "executeAction no_predefined (binding_W 42) key_S ?e s_down = (Inr (), s_down)"
    by simp
  from t2 o c
  have r2: "executeAction one_predefined (binding_W 42) key_S ?e s_down
       = (Inr (),
          s_down\<lparr> cesiumService := 1,
                   calls := calls s_down @ [PredefinedCall 42 (JObj []) ?e] \<rparr>)"
    by simp
  from t2 st
  have r3: "key_state (snd (executeAction one_predefined (binding_W 42) key_S ?e s_down)) key_S
              = Some PRESSED"
    by (simp add: key_state_def)
  from h1 h2 h3 n o c r1 r2 r3 show ?thesis
    by simp
qed

text \<open>
  Claim C9: \<^verbatim>\<open>getParams\<close> returns a new empty object for a falsy parameter
  definition, the result of the call for a function, called with the
  \<^verbatim>\<open>cesiumService\<close> and the event, and the definition itself otherwise. Every
  execution of an action resolves the parameters again: the function is called on the
  current \<^verbatim>\<open>cesiumService\<close> and the action receives what it returns. So does every
  tick: when it reaches a \<open>PRESSED\<close> key whose parameters are a function, it calls the
  function and then the action with the result of that call.
\<close>

theorem getParams_resolution:
  "getParams (ParamsValue v) e s = (Inr (if truthy v then v else JObj []), s)
   \<and> getParams (ParamsFn f) e s =
       (fst (f (cesiumService s) e),
        s\<lparr> cesiumService := snd (f (cesiumService s) e), calls := calls s @ [ParamsCall e] \<rparr>)
   \<and> (currentDefinitions s \<noteq> None \<longrightarrow> params b = ParamsFn f \<longrightarrow>
        action b = ActionFn g \<longrightarrow> f (cesiumService s) e = (Inr p, w) \<longrightarrow>
        calls (snd (executeAction tbl b k e s)) = calls s @ [ParamsCall e, ActionCall k p e])
   \<and> (currentDefinitions s \<noteq> None \<longrightarrow> params b = ParamsFn f \<longrightarrow>
        (\<exists>cs. calls (snd (executeAction tbl b k e s)) = calls s @ ParamsCall e # cs))
   \<and> (obj_keys (activeDefinitions t) = pre @ k # post \<longrightarrow>
        handleTick_forEach tbl pre t = (Inr (), s) \<longrightarrow>
        currentDefinitions s \<noteq> None \<longrightarrow>
        obj_get (activeDefinitions s) k = Some a \<longrightarrow>
        state a = PRESSED \<longrightarrow> activeAction a = Some b \<longrightarrow> params b = ParamsFn f \<longrightarrow>
        (\<exists>cs. calls (snd (handleTick tbl t)) = calls s @ ParamsCall (keyboardEvent a) # cs)
        \<and> (action b = ActionFn g \<longrightarrow>
             f (cesiumService s) (keyboardEvent a) = (Inr p, w) \<longrightarrow>
             (\<exists>cs. calls (snd (handleTick tbl t))
                     = calls s @ ParamsCall (keyboardEvent a)
                         # ActionCall k p (keyboardEvent a) # cs)))"
proof -
  have c1: "getParams (ParamsValue v) e s = (Inr (if truthy v then v else JObj []), s)"
    by (simp add: getParams_def)
  have c2: "getParams (ParamsFn f) e s =
       (fst (f (cesiumService s) e),
        s\<lparr> cesiumService := snd (f (cesiumService s) e), calls := calls s @ [ParamsCall e] \<rparr>)"
    by (simp add: getParams_def split_beta)
  have c3: "currentDefinitions s \<noteq> None \<longrightarrow> params b = ParamsFn f \<longrightarrow>
        action b = ActionFn g \<longrightarrow> f (cesiumService s) e = (Inr p, w) \<longrightarrow>
        calls (snd (executeAction tbl b k e s)) = calls s @ [ParamsCall e, ActionCall k p e]"
    by (auto simp: getParams_def executeAction_def Let_def split_beta split: sum.splits)
  have c4: "currentDefinitions s \<noteq> None \<longrightarrow> params b = ParamsFn f \<longrightarrow>
        (\<exists>cs. calls (snd (executeAction tbl b k e s)) = calls s @ ParamsCall e # cs)"
    by (auto simp: getParams_def executeAction_def Let_def split_beta
        split: sum.splits Action.splits option.splits)
  have c5: "obj_keys (activeDefinitions t) = pre @ k # post \<longrightarrow>
        handleTick_forEach tbl pre t = (Inr (), s) \<longrightarrow>
        currentDefinitions s \<noteq> None \<longrightarrow>
        obj_get (activeDefinitions s) k = Some a \<longrightarrow>
        state a = PRESSED \<longrightarrow> activeAction a = Some b \<longrightarrow> params b = ParamsFn f \<longrightarrow>
        (\<exists>cs. calls (snd (handleTick tbl t)) = calls s @ ParamsCall (keyboardEvent a) # cs)
        \<and> (action b = ActionFn g \<longrightarrow>
             f (cesiumService s) (keyboardEvent a) = (Inr p, w) \<longrightarrow>
             (\<exists>cs. calls (snd (handleTick tbl t))
                     = calls s @ ParamsCall (keyboardEvent a)
                         # ActionCall k p (keyboardEvent a) # cs))"
  proof (intro impI)
    let ?e = "keyboardEvent a"
    assume keys: "obj_keys (activeDefinitions t) = pre @ k # post"
      and before: "handleTick_forEach tbl pre t = (Inr (), s)"
      and installed: "currentDefinitions s \<noteq> None"
      and entry: "obj_get (activeDefinitions s) k = Some a"
      and pressed: "state a = PRESSED"
      and held: "activeAction a = Some b"
      and fn: "params b = ParamsFn f"
    obtain r2 s2 where ex: "executeAction tbl b k ?e s = (r2, s2)"
      by (cases "executeAction tbl b k ?e s")
    have key: "handleTick_key tbl k s = (r2, s2)"
      by (simp add: handleTick_key_def entry pressed held ex)
    have s2: "s2 = snd (executeAction tbl b k ?e s)"
      by (simp add: ex)
    have p1: "\<exists>cs. calls s2 = calls s @ ParamsCall ?e # cs"
      unfolding s2 using installed fn
      by (auto simp: executeAction_def getParams_def Let_def split_beta
          split: sum.splits Action.splits option.splits)
    have p2: "\<exists>cs. calls s2 = calls s @ ParamsCall ?e # ActionCall k p ?e # cs"
      if "action b = ActionFn g" and "f (cesiumService s) ?e = (Inr p, w)"
      unfolding s2 using installed fn that
      by (auto simp: executeAction_def getParams_def Let_def split_beta
          split: sum.splits)
    have tick: "handleTick tbl t =
        (case r2 of Inl x \<Rightarrow> (Inl x, s2) | Inr u \<Rightarrow> handleTick_forEach tbl post s2)"
      by (simp add: handleTick_def keys handleTick_forEach_append before key
          split: sum.splits)
    obtain cs3 where c3: "calls (snd (handleTick tbl t)) = calls s2 @ cs3"
    proof (cases r2)
      case (Inl x)
      with tick have "calls (snd (handleTick tbl t)) = calls s2 @ []" by simp
      then show ?thesis by (rule that)
    next
      case (Inr u)
      with tick handleTick_forEach_calls [of tbl post s2] obtain cs
        where "calls (snd (handleTick tbl t)) = calls s2 @ cs" by auto
      then show ?thesis by (rule that)
    qed
    from p1 c3 have "\<exists>cs. calls (snd (handleTick tbl t)) = calls s @ ParamsCall ?e # cs"
      by auto
    moreover from p2 c3
    have "action b = ActionFn g \<longrightarrow> f (cesiumService s) ?e = (Inr p, w) \<longrightarrow>
          (\<exists>cs. calls (snd (handleTick tbl t))
                  = calls s @ ParamsCall ?e # ActionCall k p ?e # cs)"
      by auto
    ultimately show "(\<exists>cs. calls (snd (handleTick tbl t)) = calls s @ ParamsCall ?e # cs)
        \<and> (action b = ActionFn g \<longrightarrow> f (cesiumService s) ?e = (Inr p, w) \<longrightarrow>
             (\<exists>cs. calls (snd (handleTick tbl t))
                     = calls s @ ParamsCall ?e # ActionCall k p ?e # cs))"
      by (rule conjI)
  qed
  show ?thesis
    by (rule conjI [OF c1 conjI [OF c2 conjI [OF c3 conjI [OF c4 c5]]]])
qed

text \<open>
  An instance: two ticks over the pressed key B, whose parameter function returns the
  count held by the \<^verbatim>\<open>cesiumService\<close>: the action receives 1 on the first tick and
  2 on the second; static parameters.
\<close>

theorem getParams_resolution_witness:
  "currentDefinitions sb_mid \<noteq> None
   \<and> params binding_B = ParamsFn counting_params
   \<and> action binding_B = ActionFn plain_action
   \<and> counting_params (cesiumService sb_mid) (Some (event_at 66 2)) = (Inr (JNum 1), 1)
   \<and> calls (snd (executeAction no_predefined binding_B key_B (Some (event_at 66 2)) sb_mid))
       = calls sb_mid
         @ [ParamsCall (Some (event_at 66 2)), ActionCall key_B (JNum 1) (Some (event_at 66 2))]
   \<and> getParams (ParamsValue JNull) (Some (event_at 66 2)) sb_mid = (Inr (JObj []), sb_mid)
   \<and> getParams (ParamsValue (JObj [(key_A, JNum 10)])) (Some (event_at 66 2)) sb_mid
       = (Inr (JObj [(key_A, JNum 10)]), sb_mid)
   \<and> obj_keys (activeDefinitions sb_down) = [key_S] @ key_B # []
   \<and> handleTick_forEach no_predefined [key_S] sb_down = (Inr (), sb_mid)
   \<and> obj_get (activeDefinitions sb_mid) key_B
       = Some \<lparr> keyboardEvent = Some (event_at 66 2), state = PRESSED,
                 activeAction = Some binding_B \<rparr>
   \<and> (\<exists>cs. calls (snd (handleTick no_predefined sb_down))
             = calls sb_mid @ ParamsCall (Some (event_at 66 2))
                 # ActionCall key_B (JNum 1) (Some (event_at 66 2)) # cs)
   \<and> obj_keys (activeDefinitions sb_tick) = [key_S] @ key_B # []
   \<and> handleTick_forEach no_predefined [key_S] sb_tick = (Inr (), sb_tick)
   \<and> counting_params (cesiumService sb_tick) (Some (event_at 66 2)) = (Inr (JNum 2), 2)
   \<and> (\<exists>cs. calls (snd (handleTick no_predefined sb_tick))
             = calls sb_tick @ ParamsCall (Some (event_at 66 2))
                 # ActionCall key_B (JNum 2) (Some (event_at 66 2)) # cs)
   \<and> calls (snd (handleTick no_predefined (snd (handleTick no_predefined sb_down))))
       = calls sb_down
         @ [ActionCall key_S (JObj []) (Some (event_at 83 1)),
            ParamsCall (Some (event_at 66 2)),
            ActionCall key_B (JNum 1) (Some (event_at 66 2)),
            ParamsCall (Some (event_at 66 2)),
            ActionCall key_B (JNum 2) (Some (event_at 66 2))]"
proof -
  let ?e = "Some (event_at 66 2)"
  let ?a = "\<lparr> keyboardEvent = ?e, state = PRESSED, activeAction = Some binding_B \<rparr>"
  have h1: "currentDefinitions sb_mid \<noteq> None" "currentDefinitions sb_tick \<noteq> None"
    by (simp_all add: sb_mid_eq sb_down_eq sb_tick_eq)
  have h2: "params binding_B = ParamsFn counting_params"
    and h3: "action binding_B = ActionFn plain_action"
    by (simp_all add: binding_B_def)
  have h4: "counting_params (cesiumService sb_mid) ?e = (Inr (JNum 1), 1)"
    and h5: "counting_params (cesiumService sb_tick) ?e = (Inr (JNum 2), 2)"
    by (simp_all add: counting_params_def sb_mid_eq sb_tick_eq)
  have k1: "obj_keys (activeDefinitions sb_down) = [key_S] @ key_B # []"
    by (simp add: sb_down_eq obj_keys_def is_array_index_def is_digit_def key_S_def key_B_def)
  have k2: "obj_keys (activeDefinitions sb_tick) = [key_S] @ key_B # []"
    by (simp add: sb_tick_eq obj_keys_def is_array_index_def is_digit_def key_S_def key_B_def)
  have f1: "handleTick_forEach no_predefined [key_S] sb_down = (Inr (), sb_mid)"
    by (simp add: sb_mid_eq) (simp add: sb_down_eq example_defs method_defs)
  have f2: "handleTick_forEach no_predefined [key_S] sb_tick = (Inr (), sb_tick)"
    by (simp add: sb_tick_eq handleTick_key_def ignored_def)
  have g1: "obj_get (activeDefinitions sb_mid) key_B = Some ?a"
    by (simp add: sb_mid_eq key_S_def key_B_def)
  have g2: "obj_get (activeDefinitions sb_tick) key_B = Some ?a"
    by (simp add: sb_tick_eq key_S_def key_B_def)
  have a1: "state ?a = PRESSED" and a2: "activeAction ?a = Some binding_B"
    and a3: "keyboardEvent ?a = ?e"
    by simp_all
  note t1 = getParams_resolution
    [where v = JNull and e = ?e and s = sb_mid and f = counting_params and b = binding_B
       and g = plain_action and p = "JNum 1" and w = 1 and tbl = no_predefined and k = key_B
       and t = sb_down and pre = "[key_S]" and post = "[]" and a = ?a]
  note t2 = getParams_resolution
    [where v = "JObj [(key_A, JNum 10)]" and e = ?e and s = sb_tick and f = counting_params
       and b = binding_B and g = plain_action and p = "JNum 2" and w = 2
       and tbl = no_predefined and k = key_B
       and t = sb_tick and pre = "[key_S]" and post = "[]" and a = ?a]
  from t1 h1 h2 h3 h4
  have r1: "calls (snd (executeAction no_predefined binding_B key_B ?e sb_mid))
       = calls sb_mid @ [ParamsCall ?e, ActionCall key_B (JNum 1) ?e]"
    and r2: "getParams (ParamsValue JNull) ?e sb_mid = (Inr (JObj []), sb_mid)"
    by simp_all
  from getParams_resolution [where v = "JObj [(key_A, JNum 10)]" and e = ?e and s = sb_mid]
  have r3: "getParams (ParamsValue (JObj [(key_A, JNum 10)])) ?e sb_mid
       = (Inr (JObj [(key_A, JNum 10)]), sb_mid)"
    by simp
  from t1 [THEN conjunct2, THEN conjunct2, THEN conjunct2, THEN conjunct2]
    k1 f1 h1 g1 a1 a2 a3 h2 h3 h4
  have r4: "\<exists>cs. calls (snd (handleTick no_predefined sb_down))
             = calls sb_mid @ ParamsCall ?e # ActionCall key_B (JNum 1) ?e # cs"
    by simp
  from t2 [THEN conjunct2, THEN conjunct2, THEN conjunct2, THEN conjunct2]
    k2 f2 h1 g2 a1 a2 a3 h2 h3 h5
  have r5: "\<exists>cs. calls (snd (handleTick no_predefined sb_tick))
             = calls sb_tick @ ParamsCall ?e # ActionCall key_B (JNum 2) ?e # cs"
    by simp
  have r6: "calls (snd (handleTick no_predefined (snd (handleTick no_predefined sb_down))))
       = calls sb_down
         @ [ActionCall key_S (JObj []) (Some (event_at 83 1)),
            ParamsCall ?e, ActionCall key_B (JNum 1) ?e,
            ParamsCall ?e, ActionCall key_B (JNum 2) ?e]"
    using sb_tick2_eq
    by (simp add: sb_tick2_def sb_tick_def [symmetric]) (simp add: sb_tick_eq sb_down_eq)
  from h1(1) h2 h3 h4 r1 r2 r3 k1 f1 g1 r4 k2 f2 h5 r5 r6 show ?thesis
    by (intro conjI)
qed

end
